theory Spec2Isabelle
  imports Complex_Main
begin

section \<open>The outside world of the ComfyUI service\<close>

text \<open>
  \<^verbatim>\<open>server/comfy_service.py\<close> supervises an operating-system process and talks to it over
  HTTP. Everything the code asks of the outside (spawning, \<^verbatim>\<open>poll()\<close>, signals, HTTP
  requests, the event-loop clock) is answered by an \<^emph>\<open>environment\<close>: a record of
  functions that give the answer to the \<open>n\<close>-th interaction. Every call that the code
  makes to the outside is appended to a trace of events, whatever the answer to it is.
  Exceptions are values of the type \<open>exn\<close>; every constructor stands for a subclass of
  Python's \<^verbatim>\<open>Exception\<close>, so that \<^verbatim>\<open>except Exception\<close> catches all of them (cancellation
  and interrupts, which are not subclasses of it, are outside the model). The calls run
  one after the other. A reading of the clock is a real number of time units; the
  difference of two readings is computed in floating point (see \<open>elapsed\<close>).
\<close>

datatype exn =
    FileNotFoundError string
  | RuntimeError string
  | OSError
  | TimeoutExpired
  | RequestError
  | HTTPStatusError nat
  | KeyError string
  | TypeError string
  | ValueError string
  | OtherException string

type_synonym pid = nat

datatype signal = SIGTERM | SIGKILL

datatype json =
    JInt int
  | JFloat real
  | JStr string
  | JArr "json list"
  | JObj "(string \<times> json) list"

datatype event =
    Log string
  | Popen "string list" string "(string \<times> string) list"
  | Poll pid
  | Getpgid pid
  | Killpg nat signal
  | Wait pid "nat option"
  | ClientClose string
  | Get string
  | Post string json
  | Sleep nat

text \<open>
  An artifact of a finished job, an output slot, a job record and the history reply of
  \<^verbatim>\<open>GET /history/{id}\<close>, at the shape the service's API gives them. Every key the
  code tests for (\<^verbatim>\<open>"outputs"\<close>, the slot, \<^verbatim>\<open>"images"\<close>, \<^verbatim>\<open>"subfolder"\<close>) may be absent.
  A parsed JSON object is a list of its entries, with distinct keys, looked up by
  \<^const>\<open>map_of\<close>. An artifact always has its file name.

  In the environment, \<open>poll_alive\<close> says whether \<^verbatim>\<open>poll()\<close> is \<^verbatim>\<open>None\<close>; the results of
  \<^verbatim>\<open>Popen\<close>, \<^verbatim>\<open>os.getpgid\<close>, \<^verbatim>\<open>os.killpg\<close> and \<^verbatim>\<open>wait\<close> are a value or the exception
  raised; a reply to an HTTP request is the exception raised by the request, or the
  status code with the parsed body (for \<^verbatim>\<open>/system_stats\<close> the status code alone, for
  \<^verbatim>\<open>/prompt\<close> the \<^verbatim>\<open>prompt_id\<close> entry of the body, if it has one). \<open>aclose_result\<close> is
  the exception that closing an open client raises, if any. \<open>lag\<close> is the time an
  interaction takes beyond what was asked for, and \<open>float_sub\<close> is the platform's
  floating-point subtraction.
\<close>

record artifact =
  filename :: string
  subfolder :: "string option"

record slot =
  images :: "artifact list option"

record job_record =
  outputs :: "(string \<times> slot) list option"

type_synonym history = "(string \<times> job_record) list"

record environment =
  sys_executable :: string
  lag :: "nat \<Rightarrow> real"
  popen_result :: "nat \<Rightarrow> exn + pid"
  poll_alive :: "nat \<Rightarrow> bool"
  getpgid_result :: "nat \<Rightarrow> exn + nat"
  killpg_result :: "nat \<Rightarrow> exn option"
  wait_result :: "nat \<Rightarrow> exn option"
  aclose_result :: "nat \<Rightarrow> exn option"
  float_sub :: "real \<Rightarrow> real \<Rightarrow> real"
  stats_reply :: "nat \<Rightarrow> exn + nat"
  prompt_reply :: "nat \<Rightarrow> exn + nat \<times> string option"
  history_reply :: "nat \<Rightarrow> exn + nat \<times> history"

record world =
  now :: real
  step :: nat
  trace :: "event list"

definition emit :: "event \<Rightarrow> world \<Rightarrow> world" where
  "emit e w = w\<lparr>trace := trace w @ [e]\<rparr>"

text \<open>
  One interaction with the outside: the event is recorded, the interaction counter moves
  on, and the clock moves forward by the requested duration \<open>d\<close> plus whatever extra time
  the environment takes (never backwards: the event-loop clock is monotonic).
\<close>

definition interact :: "environment \<Rightarrow> event \<Rightarrow> real \<Rightarrow> world \<Rightarrow> world" where
  "interact env e d w =
     w\<lparr>now := now w + d + max 0 (lag env (step w)),
       step := Suc (step w),
       trace := trace w @ [e]\<rparr>"

definition sleep :: "environment \<Rightarrow> nat \<Rightarrow> world \<Rightarrow> world" where
  "sleep env d w = interact env (Sleep d) (real d) w"

text \<open>
  \<^verbatim>\<open>t - t0\<close> on two clock readings, as the code computes it: the result \<open>y\<close> of the
  platform's subtraction, which differs from the exact difference \<open>x\<close> by a relative
  error of at most \<open>2\<^sup>-\<^sup>5\<^sup>2\<close> (the accuracy of a double-precision operation). An answer
  of the environment outside that bound is not a floating-point result and is replaced
  by the exact difference.
\<close>

definition elapsed :: "environment \<Rightarrow> real \<Rightarrow> real \<Rightarrow> real" where
  "elapsed env t t0 =
     (let x = t - t0; y = float_sub env t t0
      in if \<bar>y - x\<bar> * 2 ^ 52 \<le> \<bar>x\<bar> then y else x)"

section \<open>Formatting\<close>

definition digit_char :: "nat \<Rightarrow> char" where
  "digit_char n = ''0123456789'' ! n"

fun str_nat :: "nat \<Rightarrow> string" where
  "str_nat n = (if n < 10 then [digit_char n] else str_nat (n div 10) @ [digit_char (n mod 10)])"

declare str_nat.simps [simp del]

definition str_int :: "int \<Rightarrow> string" where
  "str_int i = (if i < 0 then ''-'' @ str_nat (nat (- i)) else str_nat (nat i))"

section \<open>ComfyUIService\<close>

text \<open>
  An \<^verbatim>\<open>httpx.AsyncClient\<close>: its base URL, its timeout, and whether it has been closed.
\<close>

datatype async_client = AsyncClient string nat bool

record service =
  comfy_dir :: string
  host :: string
  port :: int
  process :: "pid option"
  client :: "async_client option"
  is_ready :: bool

text \<open>
  \<^verbatim>\<open>__init__\<close>: the directory defaults to \<^verbatim>\<open>Path(__file__).parent.parent / "comfy"\<close>
  (\<open>base\<close> is that parent directory) when the argument is \<^verbatim>\<open>None\<close> or empty; a missing
  directory raises \<^verbatim>\<open>FileNotFoundError\<close>.
\<close>

definition init :: "string \<Rightarrow> (string \<Rightarrow> bool) \<Rightarrow> string option \<Rightarrow> string \<Rightarrow> int \<Rightarrow> exn + service" where
  "init base dir_exists dir h p =
     (let d = (case dir of None \<Rightarrow> base @ ''/comfy''
                         | Some x \<Rightarrow> if x = [] then base @ ''/comfy'' else x)
      in if \<not> dir_exists d then Inl (FileNotFoundError (''ComfyUI directory not found: '' @ d))
         else Inr \<lparr>comfy_dir = d, host = h, port = p, process = None, client = None,
                   is_ready = False\<rparr>)"

definition base_url :: "service \<Rightarrow> string" where
  "base_url s = ''http://'' @ host s @ '':'' @ str_int (port s)"

text \<open>\<^verbatim>\<open>is_running\<close>: \<^verbatim>\<open>poll()\<close> is asked only when a process reference exists.\<close>

definition is_running :: "environment \<Rightarrow> service \<Rightarrow> world \<Rightarrow> bool \<times> world" where
  "is_running env s w =
     (case process s of
        None \<Rightarrow> (False, w)
      | Some p \<Rightarrow> (poll_alive env (step w), interact env (Poll p) 0 w))"

subsection \<open>stop\<close>

text \<open>
  The body of the \<^verbatim>\<open>try\<close> in \<^verbatim>\<open>stop()\<close>: the result is the exception that leaves the
  body, if any. \<^verbatim>\<open>TimeoutExpired\<close> from the timed wait is handled by the inner
  \<^verbatim>\<open>except\<close>; every other exception leaves the body.
\<close>

definition signal_group :: "environment \<Rightarrow> pid \<Rightarrow> signal \<Rightarrow> world \<Rightarrow> exn option \<times> world" where
  "signal_group env p sig w =
     (let w1 = interact env (Getpgid p) 0 w in
      case getpgid_result env (step w) of
        Inl e \<Rightarrow> (Some e, w1)
      | Inr g \<Rightarrow> (killpg_result env (step w1), interact env (Killpg g sig) 0 w1))"

definition proc_wait :: "environment \<Rightarrow> pid \<Rightarrow> nat option \<Rightarrow> world \<Rightarrow> exn option \<times> world" where
  "proc_wait env p t w = (wait_result env (step w), interact env (Wait p t) 0 w)"

definition stop_body :: "environment \<Rightarrow> pid \<Rightarrow> world \<Rightarrow> exn option \<times> world" where
  "stop_body env p w =
     (case signal_group env p SIGTERM w of
        (Some e, w1) \<Rightarrow> (Some e, w1)
      | (None, w1) \<Rightarrow>
          (case proc_wait env p (Some 10) w1 of
             (None, w2) \<Rightarrow> (None, emit (Log ''comfyui_stopped'') w2)
           | (Some TimeoutExpired, w2) \<Rightarrow>
               (case signal_group env p SIGKILL w2 of
                  (Some e, w3) \<Rightarrow> (Some e, w3)
                | (None, w3) \<Rightarrow>
                    (case proc_wait env p None w3 of
                       (Some e, w4) \<Rightarrow> (Some e, w4)
                     | (None, w4) \<Rightarrow> (None, emit (Log ''comfyui_stopped'') w4)))
           | (Some e, w2) \<Rightarrow> (Some e, w2)))"

text \<open>
  \<^verbatim>\<open>await client.aclose()\<close>. The library marks the client closed before it releases the
  connections, which is where an exception can come from, and closing a closed client
  does nothing (the behaviour of httpx, which is not part of this repository). The
  result is the exception raised, if any, and the client object after the call.
\<close>

definition aclose ::
  "environment \<Rightarrow> async_client \<Rightarrow> world \<Rightarrow> exn option \<times> async_client \<times> world" where
  "aclose env c w =
     (case c of
        AsyncClient url t is_closed \<Rightarrow>
          if is_closed then (None, c, w)
          else (aclose_result env (step w), AsyncClient url t True,
                interact env (ClientClose url) 0 w))"

text \<open>
  The second statement of \<^verbatim>\<open>stop()\<close>, lines 152 to 170: \<^verbatim>\<open>except Exception\<close> catches every
  exception of the body and logs it, and the \<^verbatim>\<open>finally\<close> block clears the process
  reference and the readiness flag. Nothing happens when there is no process reference.
\<close>

definition stop_process :: "environment \<Rightarrow> service \<Rightarrow> world \<Rightarrow> service \<times> world" where
  "stop_process env s w =
     (case process s of
        None \<Rightarrow> (s, w)
      | Some p \<Rightarrow>
          (let (r, w2) = stop_body env p w;
               w3 = (case r of None \<Rightarrow> w2 | Some e \<Rightarrow> emit (Log ''comfyui_stop_error'') w2)
           in (s\<lparr>process := None, is_ready := False\<rparr>, w3)))"

text \<open>
  \<^verbatim>\<open>stop()\<close>. The first component of the result is the exception that \<^verbatim>\<open>stop()\<close>
  raises, if any. The client is closed at line 149, outside any \<^verbatim>\<open>try\<close>: an exception
  of \<^verbatim>\<open>aclose()\<close> leaves \<^verbatim>\<open>stop()\<close> at once, before \<^verbatim>\<open>self.client = None\<close> and before the
  process is looked at.
\<close>

definition stop :: "environment \<Rightarrow> service \<Rightarrow> world \<Rightarrow> exn option \<times> service \<times> world" where
  "stop env s w =
     (case client s of
        None \<Rightarrow> (case stop_process env s w of (s', w') \<Rightarrow> (None, s', w'))
      | Some c \<Rightarrow>
          (case aclose env c w of
             (Some e, c', w1) \<Rightarrow> (Some e, s\<lparr>client := Some c'\<rparr>, w1)
           | (None, c', w1) \<Rightarrow>
               (case stop_process env (s\<lparr>client := None\<rparr>) w1 of
                  (s', w') \<Rightarrow> (None, s', w'))))"

subsection \<open>Waiting for readiness\<close>

text \<open>
  One iteration of the loop in \<^verbatim>\<open>_wait_for_ready\<close>, entered when the deadline has not
  passed: the liveness check, then the health request on a throwaway client, then the
  sleep. Only \<^verbatim>\<open>httpx.RequestError\<close> (which includes the timeout exceptions) is caught;
  any other exception leaves the function.
\<close>

datatype probe = Done "exn + bool" | Retry

definition probe_once :: "environment \<Rightarrow> service \<Rightarrow> world \<Rightarrow> probe \<times> world" where
  "probe_once env s w =
     (case is_running env s w of
        (False, w1) \<Rightarrow> (Done (Inr False), emit (Log ''comfyui_process_died'') w1)
      | (True, w1) \<Rightarrow>
          (let w2 = interact env (Get (base_url s @ ''/system_stats'')) 0 w1 in
           case stats_reply env (step w1) of
             Inr status \<Rightarrow>
               if status = 200 then (Done (Inr True), emit (Log ''comfyui_ready'') w2)
               else (Retry, sleep env 1 w2)
           | Inl e \<Rightarrow>
               if e = RequestError then (Retry, sleep env 1 w2)
               else (Done (Inl e), w2)))"

function wait_loop :: "environment \<Rightarrow> service \<Rightarrow> real \<Rightarrow> int \<Rightarrow> world \<Rightarrow> (exn + bool) \<times> world" where
  "wait_loop env s start_time timeout w =
     (if elapsed env (now w) start_time < of_int timeout then
        (case probe_once env s w of
           (Done r, w1) \<Rightarrow> (r, w1)
         | (Retry, w1) \<Rightarrow> wait_loop env s start_time timeout w1)
      else (Inr False, emit (Log ''comfyui_ready_timeout'') w))"
  by pat_completeness auto
termination
proof (relation "measure (\<lambda>(env, s, t0, timeout, w).
    nat \<lceil>t0 + 2 * \<bar>of_int timeout\<bar> + 1 - now w\<rceil>)")
  show "wf (measure (\<lambda>(env, s, t0, timeout, w).
      nat \<lceil>t0 + 2 * \<bar>of_int timeout :: real\<bar> + 1 - now w\<rceil>))"
    by simp
next
  fix env s start_time timeout w x w1
  assume lt: "elapsed env (now w) start_time < of_int timeout"
    and p: "(x, w1) = probe_once env s w" and x: "x = Retry"
  let ?x = "now w - start_time"
  let ?B = "start_time + 2 * \<bar>of_int timeout :: real\<bar> + 1"
  define gap where "gap = \<bar>elapsed env (now w) start_time - ?x\<bar>"
  define a where "a = \<bar>of_int timeout :: real\<bar>"
  have "gap * 2 ^ 52 \<le> \<bar>?x\<bar>"
    by (simp add: gap_def elapsed_def Let_def)
  moreover have "gap * 2 \<le> gap * 2 ^ 52"
    by (intro mult_left_mono) (simp_all add: gap_def)
  ultimately have half: "gap * 2 \<le> \<bar>?x\<bar>"
    by simp
  have xe: "?x - elapsed env (now w) start_time \<le> gap"
    by (simp add: gap_def)
  have Ta: "of_int timeout \<le> a" and a0: "0 \<le> a"
    by (simp_all add: a_def)
  have "?x < 2 * a"
  proof (cases "0 \<le> ?x")
    case True
    then have "gap * 2 \<le> ?x" using half by simp
    with xe lt Ta show ?thesis by linarith
  next
    case False
    with a0 show ?thesis by linarith
  qed
  then have bound: "?x < 2 * \<bar>of_int timeout :: real\<bar>"
    by (simp add: a_def)
  have mono: "now v \<le> now (interact env e d v) - d" for v e d
    by (simp add: interact_def)
  obtain b v1 where r: "is_running env s w = (b, v1)"
    by (cases "is_running env s w")
  have a: "now w \<le> now v1"
    using r by (auto simp: is_running_def interact_def split: option.splits)
  let ?v2 = "interact env (Get (base_url s @ ''/system_stats'')) 0 v1"
  have b: "now v1 \<le> now ?v2" using mono [of v1 _ 0] by simp
  have c: "now ?v2 + 1 \<le> now (sleep env 1 ?v2)"
    using mono [of ?v2 "Sleep 1" 1] by (simp add: sleep_def)
  have "w1 = sleep env 1 ?v2"
    using p x r by (auto simp: probe_once_def Let_def split: bool.splits if_splits sum.splits)
  with a b c have "now w + 1 \<le> now w1" by simp
  then have "\<lceil>?B - now w1\<rceil> \<le> \<lceil>?B - now w\<rceil> - 1"
    by (simp add: ceiling_le_iff) linarith
  moreover have "0 < \<lceil>?B - now w\<rceil>"
    using bound by (simp add: ceiling_less_iff less_ceiling_iff)
  ultimately show "((env, s, start_time, timeout, w1), (env, s, start_time, timeout, w))
      \<in> measure (\<lambda>(env, s, t0, timeout, w).
          nat \<lceil>t0 + 2 * \<bar>of_int timeout\<bar> + 1 - now w\<rceil>)"
    by simp
qed

declare wait_loop.simps [simp del]

definition wait_for_ready :: "environment \<Rightarrow> service \<Rightarrow> int \<Rightarrow> world \<Rightarrow> (exn + bool) \<times> world" where
  "wait_for_ready env s timeout w = wait_loop env s (now w) timeout w"

subsection \<open>start\<close>

text \<open>
  The body of the \<^verbatim>\<open>try\<close> in \<^verbatim>\<open>start()\<close> up to the point where readiness is known:
  the process is spawned in its own group, the readiness flag takes the result of
  \<^verbatim>\<open>_wait_for_ready(timeout=30)\<close>, and the client is created when the service is ready.
  The result is \<open>Inl e\<close> when \<^verbatim>\<open>Popen\<close> or the wait raises \<open>e\<close>.
\<close>

definition launch :: "environment \<Rightarrow> service \<Rightarrow> world \<Rightarrow> (exn + bool) \<times> service \<times> world" where
  "launch env s w =
     (let cmd = [sys_executable env, ''main.py'', ''--listen'', host s, ''--port'', str_int (port s)];
          w1 = emit (Log ''starting_comfyui'') w;
          w2 = interact env (Popen cmd (comfy_dir s)
                 [(''COMFYUI_PORT'', str_int (port s)), (''COMFYUI_HOST'', host s)]) 0 w1
      in case popen_result env (step w1) of
           Inl e \<Rightarrow> (Inl e, s, w2)
         | Inr p \<Rightarrow>
             (let s1 = s\<lparr>process := Some p\<rparr> in
              case wait_for_ready env s1 30 w2 of
                (Inl e, w3) \<Rightarrow> (Inl e, s1, w3)
              | (Inr ready, w3) \<Rightarrow>
                  (let s2 = s1\<lparr>is_ready := ready\<rparr> in
                   if ready
                   then (Inr True, s2\<lparr>client := Some (AsyncClient (base_url s2) 30 False)\<rparr>,
                         emit (Log ''comfyui_started'') w3)
                   else (Inr False, s2, emit (Log ''comfyui_failed_to_start'') w3))))"

text \<open>The \<^verbatim>\<open>except Exception\<close> branch of \<^verbatim>\<open>start()\<close>: log, \<^verbatim>\<open>stop()\<close>, return \<^verbatim>\<open>False\<close>.\<close>

definition start_handler :: "environment \<Rightarrow> service \<Rightarrow> world \<Rightarrow> (exn + bool) \<times> service \<times> world" where
  "start_handler env s w =
     (case stop env s (emit (Log ''comfyui_start_error'') w) of
        (None, s', w') \<Rightarrow> (Inr False, s', w')
      | (Some e, s', w') \<Rightarrow> (Inl e, s', w'))"

definition start :: "environment \<Rightarrow> service \<Rightarrow> world \<Rightarrow> (exn + bool) \<times> service \<times> world" where
  "start env s w =
     (case is_running env s w of
        (True, w1) \<Rightarrow> (Inr True, s, emit (Log ''comfy_already_running'') w1)
      | (False, w1) \<Rightarrow>
          (case launch env s w1 of
             (Inr True, s2, w2) \<Rightarrow> (Inr True, s2, w2)
           | (Inr False, s2, w2) \<Rightarrow>
               (case stop env s2 w2 of
                  (None, s3, w3) \<Rightarrow> (Inr False, s3, w3)
                | (Some e, s3, w3) \<Rightarrow> start_handler env s3 w3)
           | (Inl e, s2, w2) \<Rightarrow> start_handler env s2 w2))"

text \<open>
  The states of a service object: the one \<^verbatim>\<open>__init__\<close> builds, and every state that
  \<^verbatim>\<open>start()\<close> or \<^verbatim>\<open>stop()\<close> returns in, whatever the outside world does.
\<close>

inductive reachable :: "service \<Rightarrow> bool" where
  created: "init base dir_exists dir h p = Inr s \<Longrightarrow> reachable s"
| started: "reachable s \<Longrightarrow> start env s w = (r, s', w') \<Longrightarrow> reachable s'"
| stopped: "reachable s \<Longrightarrow> stop env s w = (r, s', w') \<Longrightarrow> reachable s'"

subsection \<open>Requests of the service client\<close>

text \<open>
  \<^verbatim>\<open>raise_for_status()\<close> raises \<^verbatim>\<open>HTTPStatusError\<close> for every status outside 200..299.
  The reply to \<^verbatim>\<open>POST /prompt\<close> is a JSON object; \<^verbatim>\<open>result.get("prompt_id")\<close> is its
  \<^verbatim>\<open>prompt_id\<close> entry, or \<^verbatim>\<open>None\<close> when the entry is missing.
\<close>

definition raise_for_status :: "nat \<Rightarrow> exn option" where
  "raise_for_status status =
     (if 200 \<le> status \<and> status < 300 then None else Some (HTTPStatusError status))"

definition queue_prompt_payload :: "json \<Rightarrow> json" where
  "queue_prompt_payload prompt = JObj [(''prompt'', prompt), (''client_id'', JStr ''felix'')]"

text \<open>
  \<^verbatim>\<open>get_history(prompt_id)\<close>: the URL is \<^verbatim>\<open>/history/{prompt_id}\<close> when the id is truthy
  (neither \<^verbatim>\<open>None\<close> nor the empty string), \<^verbatim>\<open>/history\<close> otherwise.
\<close>

definition history_url :: "string option \<Rightarrow> string" where
  "history_url prompt_id =
     (case prompt_id of
        None \<Rightarrow> ''/history''
      | Some i \<Rightarrow> if i = [] then ''/history'' else ''/history/'' @ i)"

definition get_history ::
  "environment \<Rightarrow> service \<Rightarrow> string option \<Rightarrow> world \<Rightarrow> (exn + history) \<times> world" where
  "get_history env s prompt_id w =
     (case client s of
        None \<Rightarrow> (Inl (RuntimeError ''ComfyUI service not started''), w)
      | Some c \<Rightarrow>
          (let w1 = interact env (Get (history_url prompt_id)) 0 w in
           case history_reply env (step w) of
             Inl e \<Rightarrow> (Inl e, w1)
           | Inr (status, body) \<Rightarrow>
               (case raise_for_status status of
                  Some e \<Rightarrow> (Inl e, w1)
                | None \<Rightarrow> (Inr body, w1))))"

section \<open>Python objects of the image tools\<close>

text \<open>
  \<^verbatim>\<open>DEFAULT_TEXT2IMG_WORKFLOW\<close> is a dictionary of dictionaries of dictionaries, and
  \<^verbatim>\<open>generate_image\<close> assigns into the innermost ones through a copy of the outermost one.
  Dictionaries are therefore objects in a store, addressed by their position in it; a
  Python value is an immutable JSON value (number, string, list) or a reference to a
  dictionary. The lists of the template are never assigned to and are kept as values.
\<close>

datatype pyval = Val json | Ref nat

type_synonym pydict = "(string \<times> pyval) list"

type_synonym pyheap = "pydict list"

fun dict_set :: "string \<Rightarrow> pyval \<Rightarrow> pydict \<Rightarrow> pydict" where
  "dict_set k v [] = [(k, v)]"
| "dict_set k v ((k', v') # d) = (if k' = k then (k, v) # d else (k', v') # dict_set k v d)"

text \<open>\<^verbatim>\<open>x[k]\<close>, \<^verbatim>\<open>x[k] = v\<close> and \<^verbatim>\<open>x.copy()\<close> for a string key \<open>k\<close>.\<close>

definition getitem :: "pyheap \<Rightarrow> pyval \<Rightarrow> string \<Rightarrow> exn + pyval" where
  "getitem h x k =
     (case x of
        Ref a \<Rightarrow>
          if a < length h
          then (case map_of (h ! a) k of None \<Rightarrow> Inl (KeyError k) | Some v \<Rightarrow> Inr v)
          else Inl (TypeError ''not a dictionary'')
      | Val j \<Rightarrow> Inl (TypeError ''not subscriptable by a string''))"

definition setitem :: "pyheap \<Rightarrow> pyval \<Rightarrow> string \<Rightarrow> pyval \<Rightarrow> exn + pyheap" where
  "setitem h x k v =
     (case x of
        Ref a \<Rightarrow>
          if a < length h then Inr (h[a := dict_set k v (h ! a)])
          else Inl (TypeError ''not a dictionary'')
      | Val j \<Rightarrow> Inl (TypeError ''does not support item assignment''))"

definition dict_copy :: "pyheap \<Rightarrow> nat \<Rightarrow> pyval \<times> pyheap" where
  "dict_copy h a = (Ref (length h), h @ [h ! a])"

text \<open>
  Serialising a value for the \<^verbatim>\<open>json=\<close> argument of a request. The encoder follows the
  references; \<open>seen\<close> holds the dictionaries that are being encoded, and meeting one of
  them again is the encoder's \<^verbatim>\<open>ValueError\<close> (circular reference).
\<close>

fun collect :: "(string \<times> (exn + json)) list \<Rightarrow> exn + (string \<times> json) list" where
  "collect [] = Inr []"
| "collect ((k, Inl e) # rest) = Inl e"
| "collect ((k, Inr j) # rest) =
     (case collect rest of Inl e \<Rightarrow> Inl e | Inr js \<Rightarrow> Inr ((k, j) # js))"

function to_json :: "nat set \<Rightarrow> pyheap \<Rightarrow> pyval \<Rightarrow> exn + json" where
  "to_json seen h (Val j) = Inr j"
| "to_json seen h (Ref a) =
     (if a \<in> seen \<or> length h \<le> a then Inl (ValueError ''Circular reference detected'')
      else (case collect (map (\<lambda>kv. (fst kv, to_json (insert a seen) h (snd kv))) (h ! a)) of
              Inl e \<Rightarrow> Inl e
            | Inr kvs \<Rightarrow> Inr (JObj kvs)))"
  by pat_completeness auto
termination
proof (relation "measure (\<lambda>(seen, h, v). card ({..<length h} - seen))")
  show "wf (measure (\<lambda>(seen, h, v). card ({..<length h} - seen)))"
    by simp
next
  fix seen :: "nat set" and h :: pyheap and a :: nat and x :: "string \<times> pyval"
  assume "\<not> (a \<in> seen \<or> length h \<le> a)"
  then have mem: "a \<in> {..<length h} - seen"
    by simp
  have eq: "{..<length h} - insert a seen = ({..<length h} - seen) - {a}"
    by blast
  have "finite ({..<length h} - seen)"
    by simp
  then have "card ({..<length h} - insert a seen) < card ({..<length h} - seen)"
    unfolding eq using mem by (rule card_Diff1_less)
  then show "((insert a seen, h, snd x), (seen, h, Ref a))
      \<in> measure (\<lambda>(seen, h, v). card ({..<length h} - seen))"
    by simp
qed

text \<open>
  \<^verbatim>\<open>queue_prompt(prompt)\<close>: the payload is built from the argument and the fixed client
  id and posted to \<^verbatim>\<open>/prompt\<close>.
\<close>

definition queue_prompt ::
  "environment \<Rightarrow> service \<Rightarrow> pyheap \<Rightarrow> pyval \<Rightarrow> world \<Rightarrow> (exn + string option) \<times> world" where
  "queue_prompt env s h prompt w =
     (case client s of
        None \<Rightarrow> (Inl (RuntimeError ''ComfyUI service not started''), w)
      | Some c \<Rightarrow>
          (case to_json {} h prompt of
             Inl e \<Rightarrow> (Inl e, w)
           | Inr j \<Rightarrow>
               (let w1 = interact env (Post ''/prompt'' (queue_prompt_payload j)) 0 w in
                case prompt_reply env (step w) of
                  Inl e \<Rightarrow> (Inl e, w1)
                | Inr (status, prompt_id) \<Rightarrow>
                    (case raise_for_status status of
                       Some e \<Rightarrow> (Inl e, w1)
                     | None \<Rightarrow> (Inr prompt_id, emit (Log ''prompt_queued'') w1)))))"

subsection \<open>The workflow template\<close>

text \<open>
  The seven entries of the template that \<^verbatim>\<open>generate_image\<close> assigns to. The store
  \<open>template_with k\<close> holds the template with these entries set to \<open>k\<close>: the workflow
  dictionary at address 0, and for each node its dictionary followed by its
  \<^verbatim>\<open>inputs\<close> dictionary. \<open>module_heap\<close> is the store after the module is loaded.
\<close>

record knobs =
  k_seed :: pyval
  k_steps :: pyval
  k_cfg :: pyval
  k_width :: pyval
  k_height :: pyval
  k_text :: pyval
  k_negative :: pyval

definition link :: "string \<Rightarrow> int \<Rightarrow> pyval" where
  "link node i = Val (JArr [JStr node, JInt i])"

definition template_with :: "knobs \<Rightarrow> pyheap" where
  "template_with k =
     [ [(''3'', Ref 1), (''4'', Ref 3), (''5'', Ref 5), (''6'', Ref 7), (''7'', Ref 9),
        (''8'', Ref 11), (''9'', Ref 13)],
       [(''inputs'', Ref 2), (''class_type'', Val (JStr ''KSampler''))],
       [(''seed'', k_seed k), (''steps'', k_steps k), (''cfg'', k_cfg k),
        (''sampler_name'', Val (JStr ''euler'')), (''scheduler'', Val (JStr ''normal'')),
        (''denoise'', Val (JFloat 1)), (''model'', link ''4'' 0), (''positive'', link ''6'' 0),
        (''negative'', link ''7'' 0), (''latent_image'', link ''5'' 0)],
       [(''inputs'', Ref 4), (''class_type'', Val (JStr ''CheckpointLoaderSimple''))],
       [(''ckpt_name'', Val (JStr ''v1-5-pruned.safetensors''))],
       [(''inputs'', Ref 6), (''class_type'', Val (JStr ''EmptyLatentImage''))],
       [(''width'', k_width k), (''height'', k_height k), (''batch_size'', Val (JInt 1))],
       [(''inputs'', Ref 8), (''class_type'', Val (JStr ''CLIPTextEncode''))],
       [(''text'', k_text k), (''clip'', link ''4'' 1)],
       [(''inputs'', Ref 10), (''class_type'', Val (JStr ''CLIPTextEncode''))],
       [(''text'', k_negative k), (''clip'', link ''4'' 1)],
       [(''inputs'', Ref 12), (''class_type'', Val (JStr ''VAEDecode''))],
       [(''samples'', link ''3'' 0), (''vae'', link ''4'' 2)],
       [(''inputs'', Ref 14), (''class_type'', Val (JStr ''SaveImage''))],
       [(''filename_prefix'', Val (JStr ''felix_gen'')), (''images'', link ''8'' 0)] ]"

definition default_knobs :: knobs where
  "default_knobs =
     \<lparr>k_seed = Val (JInt 0), k_steps = Val (JInt 20), k_cfg = Val (JFloat 7),
      k_width = Val (JInt 512), k_height = Val (JInt 512), k_text = Val (JStr []),
      k_negative = Val (JStr ''text, watermark'')\<rparr>"

definition module_heap :: pyheap where
  "module_heap = template_with default_knobs"

definition DEFAULT_TEXT2IMG_WORKFLOW :: nat where
  "DEFAULT_TEXT2IMG_WORKFLOW = 0"

section \<open>generate\_image\<close>

record arguments =
  prompt :: string
  negative_prompt :: string
  width :: int
  height :: int
  steps :: int
  cfg_scale :: real

text \<open>
  The strings \<^verbatim>\<open>generate_image\<close> returns, one constructor for each message (the
  leading symbol of each message is left out):
  \<^item> \<open>NotAvailable\<close>: \<^verbatim>\<open>Image generation is not available. ComfyUI service is not initialized.\<close>
  \<^item> \<open>StartFailed\<close>: \<^verbatim>\<open>Failed to start image generation service. Please check ComfyUI installation.\<close>
  \<^item> \<open>Generated prompt image_url filename\<close>: \<^verbatim>\<open>Image generated successfully!\<close> with the
    prompt, the URL of the image and its file name;
  \<^item> \<open>TimedOut\<close>: \<^verbatim>\<open>Image generation timed out. The image may still be processing.\<close>
  \<^item> \<open>Failed e\<close>: \<^verbatim>\<open>Image generation failed:\<close> with the text of the exception \<open>e\<close>.
\<close>

datatype outcome =
    NotAvailable
  | StartFailed
  | Generated string string string
  | TimedOut
  | Failed exn

text \<open>\<^verbatim>\<open>workflow[node]["inputs"][key] = v\<close>\<close>

definition set_input :: "pyheap \<Rightarrow> pyval \<Rightarrow> string \<Rightarrow> string \<Rightarrow> pyval \<Rightarrow> exn + pyheap" where
  "set_input h workflow node key v =
     (case getitem h workflow node of
        Inl e \<Rightarrow> Inl e
      | Inr n \<Rightarrow>
          (case getitem h n ''inputs'' of
             Inl e \<Rightarrow> Inl e
           | Inr i \<Rightarrow> setitem h i key v))"

fun assign_all :: "pyval \<Rightarrow> (string \<times> string \<times> pyval) list \<Rightarrow> pyheap \<Rightarrow> exn option \<times> pyheap" where
  "assign_all workflow [] h = (None, h)"
| "assign_all workflow ((node, key, v) # rest) h =
     (case set_input h workflow node key v of
        Inl e \<Rightarrow> (Some e, h)
      | Inr h' \<Rightarrow> assign_all workflow rest h')"

text \<open>Lines 119 to 128: the copy of the template and the seven assignments, in order.\<close>

definition build_workflow :: "arguments \<Rightarrow> pyheap \<Rightarrow> (exn + pyval) \<times> pyheap" where
  "build_workflow args h =
     (let (workflow, h1) = dict_copy h DEFAULT_TEXT2IMG_WORKFLOW in
      case assign_all workflow
             [(''6'', ''text'', Val (JStr (prompt args))),
              (''7'', ''text'', Val (JStr (negative_prompt args))),
              (''5'', ''width'', Val (JInt (width args))),
              (''5'', ''height'', Val (JInt (height args))),
              (''3'', ''steps'', Val (JInt (steps args))),
              (''3'', ''cfg'', Val (JFloat (cfg_scale args))),
              (''3'', ''seed'', Val (JInt (- 1)))] h1 of
        (Some e, h2) \<Rightarrow> (Inl e, h2)
      | (None, h2) \<Rightarrow> (Inr workflow, h2))"

text \<open>Lines 119 to 133: the workflow is built and queued.\<close>

definition submit ::
  "environment \<Rightarrow> service \<Rightarrow> arguments \<Rightarrow> world \<Rightarrow> pyheap \<Rightarrow> (exn + string option) \<times> world \<times> pyheap" where
  "submit env s args w h =
     (case build_workflow args h of
        (Inl e, h1) \<Rightarrow> (Inl e, w, h1)
      | (Inr workflow, h1) \<Rightarrow>
          (case queue_prompt env s h1 workflow (emit (Log ''queueing_image_generation'') w) of
             (r, w1) \<Rightarrow> (r, w1, h1)))"

text \<open>
  Lines 144 to 153: the first image of node 9 in the record of the job, if the history
  has the job, the record has outputs, the outputs have node 9 and its image list is
  not empty.
\<close>

definition first_image :: "string option \<Rightarrow> history \<Rightarrow> artifact option" where
  "first_image prompt_id history =
     (case prompt_id of
        None \<Rightarrow> None
      | Some i \<Rightarrow>
          (case map_of history i of
             None \<Rightarrow> None
           | Some result \<Rightarrow>
               (case outputs result of
                  None \<Rightarrow> None
                | Some outs \<Rightarrow>
                    (case map_of outs ''9'' of
                       None \<Rightarrow> None
                     | Some node \<Rightarrow>
                         (case (case images node of None \<Rightarrow> [] | Some xs \<Rightarrow> xs) of
                            [] \<Rightarrow> None
                          | img_info # _ \<Rightarrow> Some img_info)))))"

definition image_url :: "service \<Rightarrow> artifact \<Rightarrow> string" where
  "image_url s img_info =
     (let sub = (case subfolder img_info of None \<Rightarrow> [] | Some x \<Rightarrow> x);
          url = base_url s @ ''/view?filename='' @ filename img_info @ ''&type=output''
      in if sub \<noteq> [] then url @ ''&subfolder='' @ sub else url)"

definition max_wait :: nat where
  "max_wait = 120"

text \<open>Lines 139 to 166: the polling loop, entered with the time waited so far.\<close>

function await_result ::
  "environment \<Rightarrow> service \<Rightarrow> string \<Rightarrow> string option \<Rightarrow> nat \<Rightarrow> world \<Rightarrow> (exn + outcome) \<times> world" where
  "await_result env s text prompt_id waited w =
     (if waited < max_wait then
        (case get_history env s prompt_id (sleep env 2 w) of
           (Inl e, w1) \<Rightarrow> (Inl e, w1)
         | (Inr history, w1) \<Rightarrow>
             (case first_image prompt_id history of
                Some img_info \<Rightarrow>
                  (Inr (Generated text (image_url s img_info) (filename img_info)),
                   emit (Log ''image_generated'') w1)
              | None \<Rightarrow> await_result env s text prompt_id (waited + 2) w1))
      else (Inr TimedOut, w))"
  by pat_completeness auto
termination
  by (relation "measure (\<lambda>(env, s, text, prompt_id, waited, w). max_wait - waited)") auto

declare await_result.simps [simp del]

text \<open>The body of the \<^verbatim>\<open>try\<close> of \<^verbatim>\<open>generate_image\<close>, and the function itself.\<close>

definition generate_try ::
  "environment \<Rightarrow> service \<Rightarrow> arguments \<Rightarrow> world \<Rightarrow> pyheap \<Rightarrow> (exn + outcome) \<times> world \<times> pyheap" where
  "generate_try env s args w h =
     (case submit env s args w h of
        (Inl e, w1, h1) \<Rightarrow> (Inl e, w1, h1)
      | (Inr prompt_id, w1, h1) \<Rightarrow>
          (case await_result env s (prompt args) prompt_id 0 w1 of
             (r, w2) \<Rightarrow> (r, w2, h1)))"

definition generate_guarded ::
  "environment \<Rightarrow> service \<Rightarrow> arguments \<Rightarrow> world \<Rightarrow> pyheap \<Rightarrow> outcome \<times> world \<times> pyheap" where
  "generate_guarded env s args w h =
     (case generate_try env s args w h of
        (Inr out, w1, h1) \<Rightarrow> (out, w1, h1)
      | (Inl e, w1, h1) \<Rightarrow> (Failed e, emit (Log ''image_generation_error'') w1, h1))"

definition generate_image ::
  "environment \<Rightarrow> service option \<Rightarrow> arguments \<Rightarrow> world \<Rightarrow> pyheap
     \<Rightarrow> (exn + outcome) \<times> service option \<times> world \<times> pyheap" where
  "generate_image env svc args w h =
     (case svc of
        None \<Rightarrow> (Inr NotAvailable, None, w, h)
      | Some s \<Rightarrow>
          (case is_running env s w of
             (True, w1) \<Rightarrow>
               (case generate_guarded env s args w1 h of
                  (out, w2, h2) \<Rightarrow> (Inr out, Some s, w2, h2))
           | (False, w1) \<Rightarrow>
               (case start env s (emit (Log ''starting_comfyui_for_generation'') w1) of
                  (Inl e, s1, w2) \<Rightarrow> (Inl e, Some s1, w2, h)
                | (Inr False, s1, w2) \<Rightarrow> (Inr StartFailed, Some s1, w2, h)
                | (Inr True, s1, w2) \<Rightarrow>
                    (case generate_guarded env s1 args w2 h of
                       (out, w3, h3) \<Rightarrow> (Inr out, Some s1, w3, h3)))))"

section \<open>Vocabulary of the properties\<close>

text \<open>
  The invariant of the service object: the client exists exactly when the readiness
  flag is set, and the flag is only set while a process reference exists.
\<close>

definition consistent :: "service \<Rightarrow> bool" where
  "consistent s \<longleftrightarrow>
     (client s \<noteq> None \<longleftrightarrow> is_ready s) \<and> (is_ready s \<longrightarrow> process s \<noteq> None)"

text \<open>The payloads of the \<^verbatim>\<open>POST\<close> requests in a trace, in order.\<close>

fun post_of :: "event \<Rightarrow> json list" where
  "post_of (Post path payload) = [payload]"
| "post_of e = []"

definition posted :: "world \<Rightarrow> json list" where
  "posted w = concat (map post_of (trace w))"

text \<open>The entry of a JSON document under a path of keys.\<close>

fun json_at :: "string list \<Rightarrow> json \<Rightarrow> json option" where
  "json_at [] j = Some j"
| "json_at (k # ks) (JObj kvs) = (case map_of kvs k of None \<Rightarrow> None | Some j \<Rightarrow> json_at ks j)"
| "json_at (k # ks) j = None"

text \<open>
  One round of the polling loop as seen from outside (the sleep of 2, then the history
  request), the events of \<open>k\<close> rounds, and the reply that the environment gives to the
  request of round \<open>i\<close> (counted from 0) of a wait that starts in world \<open>w\<close>.
\<close>

definition poll_once :: "environment \<Rightarrow> string option \<Rightarrow> world \<Rightarrow> world" where
  "poll_once env prompt_id w = interact env (Get (history_url prompt_id)) 0 (sleep env 2 w)"

definition polls :: "string option \<Rightarrow> nat \<Rightarrow> event list" where
  "polls prompt_id k = concat (replicate k [Sleep 2, Get (history_url prompt_id)])"

definition poll_reply :: "environment \<Rightarrow> world \<Rightarrow> nat \<Rightarrow> exn + nat \<times> history" where
  "poll_reply env w i = history_reply env (step w + 2 * i + 1)"

text \<open>
  A reply that lets the loop go on: the request succeeded and the history shows no image
  of node 9 for the job. A reply that makes \<^verbatim>\<open>get_history\<close> raise: the exception of the
  request, or that of \<^verbatim>\<open>raise_for_status()\<close>.
\<close>

definition no_image_yet :: "string option \<Rightarrow> exn + nat \<times> history \<Rightarrow> bool" where
  "no_image_yet prompt_id reply =
     (case reply of
        Inl e \<Rightarrow> False
      | Inr (status, history) \<Rightarrow>
          raise_for_status status = None \<and> first_image prompt_id history = None)"

definition http_error :: "exn + nat \<times> history \<Rightarrow> exn option" where
  "http_error reply =
     (case reply of Inl e \<Rightarrow> Some e | Inr (status, history) \<Rightarrow> raise_for_status status)"

text \<open>
  The values that a call with arguments \<open>args\<close> assigns to the seven entries, the
  workflow document that such a call submits, and the Python expression
  \<^verbatim>\<open>workflow[node]["inputs"][key]\<close>.
\<close>

definition knobs_of :: "arguments \<Rightarrow> knobs" where
  "knobs_of args =
     \<lparr>k_seed = Val (JInt (- 1)), k_steps = Val (JInt (steps args)),
      k_cfg = Val (JFloat (cfg_scale args)), k_width = Val (JInt (width args)),
      k_height = Val (JInt (height args)), k_text = Val (JStr (prompt args)),
      k_negative = Val (JStr (negative_prompt args))\<rparr>"

definition submitted_workflow :: "arguments \<Rightarrow> json" where
  "submitted_workflow args =
     JObj
      [(''3'', JObj [(''inputs'', JObj
          [(''seed'', JInt (- 1)), (''steps'', JInt (steps args)),
           (''cfg'', JFloat (cfg_scale args)), (''sampler_name'', JStr ''euler''),
           (''scheduler'', JStr ''normal''), (''denoise'', JFloat 1),
           (''model'', JArr [JStr ''4'', JInt 0]), (''positive'', JArr [JStr ''6'', JInt 0]),
           (''negative'', JArr [JStr ''7'', JInt 0]),
           (''latent_image'', JArr [JStr ''5'', JInt 0])]),
         (''class_type'', JStr ''KSampler'')]),
       (''4'', JObj [(''inputs'', JObj [(''ckpt_name'', JStr ''v1-5-pruned.safetensors'')]),
         (''class_type'', JStr ''CheckpointLoaderSimple'')]),
       (''5'', JObj [(''inputs'', JObj
          [(''width'', JInt (width args)), (''height'', JInt (height args)),
           (''batch_size'', JInt 1)]),
         (''class_type'', JStr ''EmptyLatentImage'')]),
       (''6'', JObj [(''inputs'', JObj
          [(''text'', JStr (prompt args)), (''clip'', JArr [JStr ''4'', JInt 1])]),
         (''class_type'', JStr ''CLIPTextEncode'')]),
       (''7'', JObj [(''inputs'', JObj
          [(''text'', JStr (negative_prompt args)), (''clip'', JArr [JStr ''4'', JInt 1])]),
         (''class_type'', JStr ''CLIPTextEncode'')]),
       (''8'', JObj [(''inputs'', JObj
          [(''samples'', JArr [JStr ''3'', JInt 0]), (''vae'', JArr [JStr ''4'', JInt 2])]),
         (''class_type'', JStr ''VAEDecode'')]),
       (''9'', JObj [(''inputs'', JObj
          [(''filename_prefix'', JStr ''felix_gen''), (''images'', JArr [JStr ''8'', JInt 0])]),
         (''class_type'', JStr ''SaveImage'')])]"

definition get_input :: "pyheap \<Rightarrow> pyval \<Rightarrow> string \<Rightarrow> string \<Rightarrow> exn + pyval" where
  "get_input h workflow node key =
     (case getitem h workflow node of
        Inl e \<Rightarrow> Inl e
      | Inr n \<Rightarrow>
          (case getitem h n ''inputs'' of
             Inl e \<Rightarrow> Inl e
           | Inr i \<Rightarrow> getitem h i key))"

subsection \<open>The specification's wording\<close>

text \<open>
  Two definitions that follow the words of the specification, for comparison with the
  code. \<open>submitJob_payload\<close> is the payload of \<^verbatim>\<open>submitJob(payload, clientId)\<close>: the workflow
  and a client identifier that the caller passes. \<open>any_slot_has_artifact\<close> is the
  specification's test for a finished job: the record of the job reports some output
  slot with at least one artifact.
\<close>

definition submitJob_payload :: "json \<Rightarrow> string \<Rightarrow> json" where
  "submitJob_payload payload client_id =
     JObj [(''prompt'', payload), (''client_id'', JStr client_id)]"

definition any_slot_has_artifact :: "string option \<Rightarrow> history \<Rightarrow> bool" where
  "any_slot_has_artifact prompt_id history =
     (case prompt_id of
        None \<Rightarrow> False
      | Some i \<Rightarrow>
          (case map_of history i of
             None \<Rightarrow> False
           | Some result \<Rightarrow>
               (case outputs result of
                  None \<Rightarrow> False
                | Some outs \<Rightarrow>
                    list_ex (\<lambda>entry. case images (snd entry) of
                                        None \<Rightarrow> False
                                      | Some xs \<Rightarrow> xs \<noteq> [])
                      outs)))"

section \<open>Example runs\<close>

text \<open>
  A service object as \<^verbatim>\<open>__init__\<close> leaves it, the same object once started, and the
  started object after a \<^verbatim>\<open>stop()\<close> that failed to close the client; then environments
  for the runs used below. \<open>env_base\<close> answers every request at once, never shows an
  image, and subtracts exactly. In \<open>env_slow\<close> the health endpoint answers from the
  third probe on; in \<open>env_no_content\<close> it always answers with status 204. In \<open>env_dead\<close>
  the spawned process has already exited when it is first polled. In
  \<open>env_close_fails\<close> closing an open client raises \<^verbatim>\<open>RuntimeError\<close>; in
  \<open>env_restart_fails\<close>, in addition, the process has exited and no new one can be
  spawned. In \<open>env_rounding\<close> the difference \<open>30 - 2\<^sup>-\<^sup>5\<^sup>2\<close> is rounded to 30. In
  \<open>env_job\<close> the job shows its image at the fourth poll of a wait that starts right
  after the submission. In \<open>env_other_slot\<close> the job only ever reports an image under
  node 10. In \<open>env_broken\<close> the third history request is answered with status 500.
  \<open>world_queued\<close> is the world right after the first submission of \<open>args_cat\<close>.
\<close>

definition service_new :: service where
  "service_new =
     \<lparr>comfy_dir = ''/felix/comfy'', host = ''127.0.0.1'', port = 8188, process = None,
      client = None, is_ready = False\<rparr>"

definition service_ready :: service where
  "service_ready =
     \<lparr>comfy_dir = ''/felix/comfy'', host = ''127.0.0.1'', port = 8188, process = Some 4242,
      client = Some (AsyncClient ''http://127.0.0.1:8188'' 30 False), is_ready = True\<rparr>"

definition world0 :: world where
  "world0 = \<lparr>now = 0, step = 0, trace = []\<rparr>"

definition history_pending :: history where
  "history_pending = [(''job-42'', \<lparr>outputs = None\<rparr>)]"

definition history_done :: history where
  "history_done =
     [(''job-42'', \<lparr>outputs = Some [(''9'', \<lparr>images = Some
         [\<lparr>filename = ''felix_gen_001.png'', subfolder = Some []\<rparr>]\<rparr>)]\<rparr>)]"

definition history_other_slot :: history where
  "history_other_slot =
     [(''job-42'', \<lparr>outputs = Some [(''10'', \<lparr>images = Some
         [\<lparr>filename = ''preview_001.png'', subfolder = Some []\<rparr>]\<rparr>)]\<rparr>)]"

definition env_base :: environment where
  "env_base =
     \<lparr>sys_executable = ''python3'', lag = (\<lambda>n. 0), popen_result = (\<lambda>n. Inr 4242),
      poll_alive = (\<lambda>n. True), getpgid_result = (\<lambda>n. Inr 4242),
      killpg_result = (\<lambda>n. None), wait_result = (\<lambda>n. None),
      aclose_result = (\<lambda>n. None), float_sub = (\<lambda>a b. a - b),
      stats_reply = (\<lambda>n. Inr 200), prompt_reply = (\<lambda>n. Inr (200, Some ''job-42'')),
      history_reply = (\<lambda>n. Inr (200, history_pending))\<rparr>"

definition env_slow :: environment where
  "env_slow =
     env_base\<lparr>stats_reply := (\<lambda>n. if n < 8 then Inl RequestError else Inr 200)\<rparr>"


definition env_close_fails :: environment where
  "env_close_fails =
     env_base\<lparr>aclose_result := (\<lambda>n. Some (RuntimeError ''Event loop is closed''))\<rparr>"

definition env_restart_fails :: environment where
  "env_restart_fails =
     env_base\<lparr>poll_alive := (\<lambda>n. False), popen_result := (\<lambda>n. Inl OSError),
              aclose_result := (\<lambda>n. Some (RuntimeError ''Event loop is closed''))\<rparr>"



definition service_closed :: service where
  "service_closed =
     \<lparr>comfy_dir = ''/felix/comfy'', host = ''127.0.0.1'', port = 8188, process = Some 4242,
      client = Some (AsyncClient ''http://127.0.0.1:8188'' 30 True), is_ready = True\<rparr>"

definition env_job :: environment where
  "env_job =
     env_base\<lparr>history_reply := (\<lambda>n. if n < 8 then Inr (200, history_pending)
                                   else Inr (200, history_done))\<rparr>"

definition env_other_slot :: environment where
  "env_other_slot = env_base\<lparr>history_reply := (\<lambda>n. Inr (200, history_other_slot))\<rparr>"

definition env_broken :: environment where
  "env_broken =
     env_base\<lparr>history_reply := (\<lambda>n. if n < 6 then Inr (200, history_pending)
                                     else Inr (500, []))\<rparr>"

definition args_cat :: arguments where
  "args_cat =
     \<lparr>prompt = ''a cat'', negative_prompt = ''blurry'', width = 768, height = 640,
      steps = 30, cfg_scale = 8\<rparr>"

definition world_queued :: world where
  "world_queued =
     \<lparr>now = 0, step = 1,
      trace = [Log ''queueing_image_generation'',
               Post ''/prompt'' (queue_prompt_payload (submitted_workflow args_cat)),
               Log ''prompt_queued'']\<rparr>"

section \<open>Lemmas\<close>

lemmas run_defs =
  start_def launch_def wait_for_ready_def wait_loop.simps probe_once_def is_running_def
  interact_def emit_def sleep_def Let_def base_url_def str_int_def str_nat.simps
  digit_char_def stop_def stop_process_def stop_body_def signal_group_def proc_wait_def
  aclose_def start_handler_def elapsed_def

lemmas example_defs =
  service_new_def service_ready_def world0_def env_base_def env_slow_def
  history_pending_def args_cat_def

subsection \<open>Traces, steps and the clock\<close>

lemma trace_emit [simp]: "trace (emit e w) = trace w @ [e]"
  by (simp add: emit_def)

lemma trace_interact [simp]: "trace (interact env e d w) = trace w @ [e]"
  by (simp add: interact_def)

lemma step_emit [simp]: "step (emit e w) = step w"
  by (simp add: emit_def)

lemma step_interact [simp]: "step (interact env e d w) = Suc (step w)"
  by (simp add: interact_def)

lemma now_emit [simp]: "now (emit e w) = now w"
  by (simp add: emit_def)

subsection \<open>The invariant of the service object\<close>

lemma stop_process_result:
  assumes "stop_process env s w = (s', w')"
  shows "process s' = None" and "client s' = client s"
    and "is_ready s' = (process s = None \<and> is_ready s)"
  using assms
  by (auto simp: stop_process_def Let_def split: option.splits prod.splits)

lemma aclose_cases:
  assumes "aclose env c w = (r, c', w')"
  shows "(r = None \<or> (\<exists>url t. c = AsyncClient url t False)) \<and>
         (\<exists>url t. c' = AsyncClient url t True \<and> (c = AsyncClient url t True \<or> c = AsyncClient url t False))"
  using assms by (cases c) (auto simp: aclose_def split: if_splits)

lemma stop_cases:
  assumes "stop env s w = (r, s', w')"
  shows "(r = None \<and> process s' = None \<and> client s' = None
            \<and> is_ready s' = (process s = None \<and> is_ready s))
       \<or> (\<exists>e url t. r = Some e \<and> client s = Some (AsyncClient url t False)
            \<and> s' = s\<lparr>client := Some (AsyncClient url t True)\<rparr>)"
proof (cases "client s")
  case None
  obtain s1 w1 where sp: "stop_process env s w = (s1, w1)" by (cases "stop_process env s w")
  with assms None have "r = None" "s' = s1" by (simp_all add: stop_def)
  with stop_process_result [OF sp] None show ?thesis by simp
next
  case (Some c)
  obtain r1 c1 w1 where ac: "aclose env c w = (r1, c1, w1)" by (metis prod_cases3)
  show ?thesis
  proof (cases r1)
    case None
    obtain s2 w2 where sp: "stop_process env (s\<lparr>client := None\<rparr>) w1 = (s2, w2)"
      by (cases "stop_process env (s\<lparr>client := None\<rparr>) w1")
    with assms Some ac None have "r = None" "s' = s2" by (simp_all add: stop_def)
    with stop_process_result [OF sp] show ?thesis by simp
  next
    case (Some e)
    with assms \<open>client s = Some c\<close> ac have r: "r = Some e" "s' = s\<lparr>client := Some c1\<rparr>"
      by (simp_all add: stop_def)
    from aclose_cases [OF ac] Some obtain url t where
      "c = AsyncClient url t False" "c1 = AsyncClient url t True"
      by auto
    with r \<open>client s = Some c\<close> show ?thesis by simp
  qed
qed

lemma stop_closed:
  assumes "stop env s w = (r, s', w')" and "client s = Some (AsyncClient url t True)"
  shows "r = None"
  using stop_cases [OF assms(1)] assms(2) by auto

lemma stop_none_consistent:
  assumes "stop env s w = (None, s', w')" and "process s \<noteq> None \<or> consistent s"
  shows "consistent s'"
  using stop_cases [OF assms(1)] assms(2) by (auto simp: consistent_def)

lemma stop_consistent:
  assumes "stop env s w = (r, s', w')" and "consistent s"
  shows "consistent s'"
  using stop_cases [OF assms(1)] assms(2) by (auto simp: consistent_def)

lemma launch_cases:
  assumes "launch env s w = (r, s2, w2)" and "consistent s"
  shows "(r = Inr True \<and> consistent s2) \<or> (r = Inr False \<and> process s2 \<noteq> None)
       \<or> ((\<exists>e. r = Inl e) \<and> consistent s2)"
  using assms
  by (auto simp: launch_def Let_def consistent_def split: sum.splits prod.splits if_splits)

lemma start_handler_consistent:
  assumes "start_handler env s w = (r, s', w')" and "consistent s"
  shows "consistent s'"
proof -
  obtain r1 s1 w1 where st: "stop env s (emit (Log ''comfyui_start_error'') w) = (r1, s1, w1)"
    by (metis prod_cases3)
  with assms(1) have "s' = s1" by (auto simp: start_handler_def split: option.splits)
  with stop_consistent [OF st assms(2)] show ?thesis by simp
qed

lemma start_handler_closed:
  assumes "start_handler env s w = (r, s', w')" and "client s = Some (AsyncClient url t True)"
    and "process s \<noteq> None"
  shows "consistent s' \<and> r = Inr False"
proof -
  obtain r1 s1 w1 where st: "stop env s (emit (Log ''comfyui_start_error'') w) = (r1, s1, w1)"
    by (metis prod_cases3)
  have none: "r1 = None" using st assms(2) by (rule stop_closed)
  with st assms(1) have "s' = s1" "r = Inr False" by (auto simp: start_handler_def)
  moreover have "consistent s1" using st none assms(3) stop_none_consistent by blast
  ultimately show ?thesis by simp
qed

lemma start_consistent:
  assumes "start env s w = (r, s', w')" and "consistent s"
  shows "consistent s'"
proof -
  obtain b w1 where run: "is_running env s w = (b, w1)" by (cases "is_running env s w")
  show ?thesis
  proof (cases b)
    case True
    with run assms show ?thesis by (simp add: start_def)
  next
    case False
    obtain r2 s2 w2 where la: "launch env s w1 = (r2, s2, w2)" by (metis prod_cases3)
    from launch_cases [OF la assms(2)] consider
      (ok) "r2 = Inr True" "consistent s2"
      | (failed) "r2 = Inr False" "process s2 \<noteq> None"
      | (raised) e where "r2 = Inl e" "consistent s2"
      by auto
    then show ?thesis
    proof cases
      case ok
      with run False la assms(1) show ?thesis by (simp add: start_def)
    next
      case raised
      with run False la assms(1) have "start_handler env s2 w2 = (r, s', w')"
        by (simp add: start_def)
      from start_handler_consistent [OF this raised(2)] show ?thesis .
    next
      case failed
      obtain r3 s3 w3 where st: "stop env s2 w2 = (r3, s3, w3)" by (metis prod_cases3)
      show ?thesis
      proof (cases r3)
        case None
        with run False la failed(1) st assms(1) have "s' = s3" by (simp add: start_def)
        moreover have "consistent s3" using st None failed(2) stop_none_consistent by blast
        ultimately show ?thesis by simp
      next
        case (Some e)
        with run False la failed(1) st assms(1) have h: "start_handler env s3 w3 = (r, s', w')"
          by (simp add: start_def)
        from stop_cases [OF st] Some obtain url t where
          "s3 = s2\<lparr>client := Some (AsyncClient url t True)\<rparr>"
          by auto
        with failed(2) have "client s3 = Some (AsyncClient url t True)" "process s3 \<noteq> None"
          by simp_all
        from start_handler_closed [OF h this] show ?thesis by simp
      qed
    qed
  qed
qed

lemma reachable_consistent: "reachable s \<Longrightarrow> consistent s"
proof (induction rule: reachable.induct)
  case (created base dir_exists dir h p s)
  then show ?case by (auto simp: init_def Let_def consistent_def split: if_splits)
next
  case (started s env w r s' w')
  then show ?case using start_consistent by blast
next
  case (stopped s env w r s' w')
  then show ?case using stop_consistent by blast
qed

lemma service_new_reachable: "reachable service_new"
proof -
  have "init ''/felix'' (\<lambda>d. True) None ''127.0.0.1'' 8188 = Inr service_new"
    by (simp add: init_def service_new_def)
  then show ?thesis by (rule reachable.created)
qed

lemma start_service_new:
  "start env_slow service_new world0 =
     (Inr True, service_ready,
      \<lparr>now = 2, step = 9,
       trace = [Log ''starting_comfyui'',
         Popen [''python3'', ''main.py'', ''--listen'', ''127.0.0.1'', ''--port'', ''8188'']
           ''/felix/comfy'' [(''COMFYUI_PORT'', ''8188''), (''COMFYUI_HOST'', ''127.0.0.1'')],
         Poll 4242, Get ''http://127.0.0.1:8188/system_stats'', Sleep 1,
         Poll 4242, Get ''http://127.0.0.1:8188/system_stats'', Sleep 1,
         Poll 4242, Get ''http://127.0.0.1:8188/system_stats'',
         Log ''comfyui_ready'', Log ''comfyui_started'']\<rparr>)"
  by (simp add: run_defs example_defs)

lemma service_ready_reachable: "reachable service_ready"
  using service_new_reachable start_service_new by (rule reachable.started)

subsection \<open>The readiness loop\<close>



subsection \<open>The polling loop\<close>

lemma step_poll_once [simp]: "step (poll_once env pid w) = step w + 2"
  by (simp add: poll_once_def sleep_def)

lemma trace_poll_once [simp]:
  "trace (poll_once env pid w) = trace w @ [Sleep 2, Get (history_url pid)]"
  by (simp add: poll_once_def sleep_def)

lemma now_poll_once: "now w + 2 \<le> now (poll_once env pid w)"
  by (simp add: poll_once_def sleep_def interact_def)

lemma poll_reply_shift: "poll_reply env (poll_once env pid w) i = poll_reply env w (Suc i)"
  by (simp add: poll_reply_def)

lemma await_unfold:
  assumes "client s = Some c" and "waited < max_wait"
  shows "await_result env s text pid waited w =
     (case poll_reply env w 0 of
        Inl e \<Rightarrow> (Inl e, poll_once env pid w)
      | Inr (status, history) \<Rightarrow>
          (case raise_for_status status of
             Some e \<Rightarrow> (Inl e, poll_once env pid w)
           | None \<Rightarrow>
               (case first_image pid history of
                  Some img \<Rightarrow> (Inr (Generated text (image_url s img) (filename img)),
                                emit (Log ''image_generated'') (poll_once env pid w))
                | None \<Rightarrow> await_result env s text pid (waited + 2) (poll_once env pid w))))"
  using assms
  by (simp add: await_result.simps [of env s _ pid waited w] get_history_def poll_once_def
      poll_reply_def sleep_def Let_def split: sum.splits option.splits prod.splits)

lemma await_pending:
  assumes "client s = Some c"
  shows "waited + 2 * k < max_wait + 2 \<Longrightarrow> (\<forall>i<k. no_image_yet pid (poll_reply env w i)) \<Longrightarrow>
     await_result env s text pid waited w =
       await_result env s text pid (waited + 2 * k) ((poll_once env pid ^^ k) w)"
proof (induction k arbitrary: waited w)
  case 0
  then show ?case by simp
next
  case (Suc k)
  have lt: "waited < max_wait" using Suc.prems(1) by simp
  have "no_image_yet pid (poll_reply env w 0)" using Suc.prems(2) by simp
  then have one: "await_result env s text pid waited w =
      await_result env s text pid (waited + 2) (poll_once env pid w)"
    by (auto simp: await_unfold [OF assms lt] no_image_yet_def split: sum.splits option.splits)
  have "\<forall>i<k. no_image_yet pid (poll_reply env (poll_once env pid w) i)"
    using Suc.prems(2) by (simp add: poll_reply_shift)
  moreover have "waited + 2 + 2 * k < max_wait + 2" using Suc.prems(1) by simp
  ultimately have "await_result env s text pid (waited + 2) (poll_once env pid w) =
      await_result env s text pid (waited + 2 + 2 * k)
        ((poll_once env pid ^^ k) (poll_once env pid w))"
    by (rule Suc.IH [rotated])
  with one show ?case by (simp add: funpow_swap1)
qed

lemma step_polled [simp]: "step ((poll_once env pid ^^ k) w) = step w + 2 * k"
  by (induction k) simp_all

lemma trace_polled [simp]: "trace ((poll_once env pid ^^ k) w) = trace w @ polls pid k"
  by (induction k arbitrary: w) (simp_all add: polls_def funpow_swap1)

lemma now_polled: "now w + 2 * real k \<le> now ((poll_once env pid ^^ k) w)"
proof (induction k)
  case 0
  then show ?case by simp
next
  case (Suc k)
  from now_poll_once [of "(poll_once env pid ^^ k) w" env pid] Suc show ?case by simp
qed

lemma poll_reply_polled: "poll_reply env ((poll_once env pid ^^ k) w) 0 = poll_reply env w k"
  by (simp add: poll_reply_def)

lemma polls_Suc: "polls pid (Suc k) = polls pid k @ [Sleep 2, Get (history_url pid)]"
  by (induction k) (simp_all add: polls_def)

lemma await_timeout:
  assumes "client s = Some c" and "\<forall>i<60. no_image_yet pid (poll_reply env w i)"
  shows "await_result env s text pid 0 w = (Inr TimedOut, (poll_once env pid ^^ 60) w)"
proof -
  have "await_result env s text pid 0 w =
      await_result env s text pid (0 + 2 * 60) ((poll_once env pid ^^ 60) w)"
    using assms(2) by (intro await_pending [OF assms(1)]) (simp_all add: max_wait_def)
  then show ?thesis by (simp add: await_result.simps [of _ _ _ _ 120] max_wait_def)
qed

lemma await_error:
  assumes "client s = Some c" and "k < 60" and "\<forall>i<k. no_image_yet pid (poll_reply env w i)"
    and "http_error (poll_reply env w k) = Some e"
  shows "await_result env s text pid 0 w = (Inl e, (poll_once env pid ^^ Suc k) w)"
proof -
  have a: "await_result env s text pid 0 w =
      await_result env s text pid (2 * k) ((poll_once env pid ^^ k) w)"
    using assms(2,3) await_pending [OF assms(1), of 0 k pid env w] by (simp add: max_wait_def)
  have lt: "2 * k < max_wait" using assms(2) by (simp add: max_wait_def)
  have "await_result env s text pid (2 * k) ((poll_once env pid ^^ k) w) =
      (Inl e, poll_once env pid ((poll_once env pid ^^ k) w))"
    using assms(4)
    by (auto simp: await_unfold [OF assms(1) lt] poll_reply_polled http_error_def
        split: sum.splits option.splits)
  with a show ?thesis by simp
qed

lemma await_image:
  assumes "client s = Some c" and "k < 60" and "\<forall>i<k. no_image_yet pid (poll_reply env w i)"
    and "poll_reply env w k = Inr (status, history)" and "raise_for_status status = None"
    and "first_image pid history = Some img"
  shows "await_result env s text pid 0 w =
     (Inr (Generated text (image_url s img) (filename img)),
      emit (Log ''image_generated'') ((poll_once env pid ^^ Suc k) w))"
proof -
  have a: "await_result env s text pid 0 w =
      await_result env s text pid (2 * k) ((poll_once env pid ^^ k) w)"
    using assms(2,3) await_pending [OF assms(1), of 0 k pid env w] by (simp add: max_wait_def)
  have lt: "2 * k < max_wait" using assms(2) by (simp add: max_wait_def)
  have "await_result env s text pid (2 * k) ((poll_once env pid ^^ k) w) =
     (Inr (Generated text (image_url s img) (filename img)),
      emit (Log ''image_generated'') (poll_once env pid ((poll_once env pid ^^ k) w)))"
    using assms(4,5,6)
    by (simp add: await_unfold [OF assms(1) lt] poll_reply_polled)
  with a show ?thesis by simp
qed

subsection \<open>The template in the store\<close>

lemma length_template [simp]: "length (template_with k) = 15"
  by (simp add: template_with_def)

lemma build_workflow_template:
  "build_workflow args (template_with k @ rest) =
     (Inr (Ref (15 + length rest)),
      template_with (knobs_of args) @ rest @ [hd (template_with k)])"
  by (simp add: build_workflow_def dict_copy_def DEFAULT_TEXT2IMG_WORKFLOW_def set_input_def
      getitem_def setitem_def template_with_def knobs_of_def nth_append list_update_append)

lemma to_json_built:
  "to_json {} (template_with (knobs_of args) @ rest @ [hd (template_with k)])
     (Ref (15 + length rest)) = Inr (submitted_workflow args)"
  by (simp add: template_with_def knobs_of_def submitted_workflow_def nth_append link_def)

lemma module_heap_template: "module_heap = template_with default_knobs @ []"
  by (simp add: module_heap_def)

lemma template_reads:
  "get_input (template_with (knobs_of args) @ rest) (Ref DEFAULT_TEXT2IMG_WORKFLOW) ''6'' ''text''
     = Inr (Val (JStr (prompt args))) \<and>
   get_input (template_with (knobs_of args) @ rest) (Ref DEFAULT_TEXT2IMG_WORKFLOW) ''7'' ''text''
     = Inr (Val (JStr (negative_prompt args))) \<and>
   get_input (template_with (knobs_of args) @ rest) (Ref DEFAULT_TEXT2IMG_WORKFLOW) ''5'' ''width''
     = Inr (Val (JInt (width args))) \<and>
   get_input (template_with (knobs_of args) @ rest) (Ref DEFAULT_TEXT2IMG_WORKFLOW) ''5'' ''height''
     = Inr (Val (JInt (height args))) \<and>
   get_input (template_with (knobs_of args) @ rest) (Ref DEFAULT_TEXT2IMG_WORKFLOW) ''3'' ''steps''
     = Inr (Val (JInt (steps args))) \<and>
   get_input (template_with (knobs_of args) @ rest) (Ref DEFAULT_TEXT2IMG_WORKFLOW) ''3'' ''cfg''
     = Inr (Val (JFloat (cfg_scale args))) \<and>
   get_input (template_with (knobs_of args) @ rest) (Ref DEFAULT_TEXT2IMG_WORKFLOW) ''3'' ''seed''
     = Inr (Val (JInt (- 1)))"
  by (simp add: get_input_def getitem_def DEFAULT_TEXT2IMG_WORKFLOW_def template_with_def
      knobs_of_def nth_append)

subsection \<open>Only the submission posts\<close>

lemma posted_emit [simp]: "posted (emit e w) = posted w @ post_of e"
  by (simp add: posted_def)

lemma posted_interact [simp]: "posted (interact env e d w) = posted w @ post_of e"
  by (simp add: posted_def)

lemma posted_sleep [simp]: "posted (sleep env d w) = posted w"
  by (simp add: sleep_def)

lemma posted_is_running: "is_running env s w = (b, w') \<Longrightarrow> posted w' = posted w"
  by (auto simp: is_running_def split: option.splits)

lemma posted_probe_once: "probe_once env s w = (x, w') \<Longrightarrow> posted w' = posted w"
  by (auto simp: probe_once_def is_running_def Let_def
      split: option.splits bool.splits sum.splits if_splits)

lemma posted_wait_loop: "wait_loop env s t0 T w = (r, w') \<Longrightarrow> posted w' = posted w"
proof (induction env s t0 T w rule: wait_loop.induct)
  case (1 env s t0 T w)
  show ?case
  proof (cases "elapsed env (now w) t0 < of_int T")
    case False
    with "1.prems" show ?thesis by (auto simp: wait_loop.simps)
  next
    case True
    obtain x w1 where p: "probe_once env s w = (x, w1)" by (cases "probe_once env s w")
    have eq: "posted w1 = posted w" using p by (rule posted_probe_once)
    show ?thesis
    proof (cases x)
      case (Done r1)
      with True p "1.prems" have "w' = w1" by (simp add: wait_loop.simps)
      with eq show ?thesis by simp
    next
      case Retry
      with True p "1.prems" have "wait_loop env s t0 T w1 = (r, w')"
        by (simp add: wait_loop.simps)
      from "1.IH" [OF True p [symmetric] Retry this] eq show ?thesis by simp
    qed
  qed
qed

lemma posted_signal_group: "signal_group env p sig w = (r, w') \<Longrightarrow> posted w' = posted w"
  by (auto simp: signal_group_def Let_def split: sum.splits)

lemma posted_proc_wait: "proc_wait env p t w = (r, w') \<Longrightarrow> posted w' = posted w"
  by (auto simp: proc_wait_def)

lemma posted_stop_body:
  assumes "stop_body env p w = (r, w')"
  shows "posted w' = posted w"
proof -
  obtain r1 w1 where a: "signal_group env p SIGTERM w = (r1, w1)"
    by (cases "signal_group env p SIGTERM w")
  obtain r2 w2 where b: "proc_wait env p (Some 10) w1 = (r2, w2)"
    by (cases "proc_wait env p (Some 10) w1")
  obtain r3 w3 where c: "signal_group env p SIGKILL w2 = (r3, w3)"
    by (cases "signal_group env p SIGKILL w2")
  obtain r4 w4 where d: "proc_wait env p None w3 = (r4, w4)"
    by (cases "proc_wait env p None w3")
  note eqs = posted_signal_group [OF a] posted_proc_wait [OF b] posted_signal_group [OF c]
    posted_proc_wait [OF d]
  from assms a b c d have "w' = w1 \<or> w' = w2 \<or> w' = w3 \<or> w' = w4
      \<or> w' = emit (Log ''comfyui_stopped'') w2 \<or> w' = emit (Log ''comfyui_stopped'') w4"
    by (auto simp: stop_body_def split: option.splits exn.splits)
  with eqs show ?thesis by auto
qed

lemma posted_aclose: "aclose env c w = (r, c', w') \<Longrightarrow> posted w' = posted w"
  by (cases c) (auto simp: aclose_def split: if_splits)

lemma posted_stop_process:
  assumes "stop_process env s w = (s', w')"
  shows "posted w' = posted w"
proof (cases "process s")
  case None
  with assms show ?thesis by (simp add: stop_process_def)
next
  case (Some p)
  obtain r2 w2 where b: "stop_body env p w = (r2, w2)" by (cases "stop_body env p w")
  from assms Some b have "w' = w2 \<or> w' = emit (Log ''comfyui_stop_error'') w2"
    by (auto simp: stop_process_def split: option.splits)
  with posted_stop_body [OF b] show ?thesis by auto
qed

lemma posted_stop:
  assumes "stop env s w = (r, s', w')"
  shows "posted w' = posted w"
proof (cases "client s")
  case None
  obtain s1 w1 where sp: "stop_process env s w = (s1, w1)" by (cases "stop_process env s w")
  with assms None have "w' = w1" by (simp add: stop_def)
  with posted_stop_process [OF sp] show ?thesis by simp
next
  case (Some c)
  obtain r1 c1 w1 where ac: "aclose env c w = (r1, c1, w1)" by (metis prod_cases3)
  obtain s2 w2 where sp: "stop_process env (s\<lparr>client := None\<rparr>) w1 = (s2, w2)"
    by (cases "stop_process env (s\<lparr>client := None\<rparr>) w1")
  from assms Some ac sp have "w' = w1 \<or> w' = w2"
    by (auto simp: stop_def split: option.splits)
  with posted_aclose [OF ac] posted_stop_process [OF sp] show ?thesis by auto
qed

lemma posted_launch:
  assumes "launch env s w = (r, s', w')"
  shows "posted w' = posted w"
proof -
  let ?w1 = "emit (Log ''starting_comfyui'') w"
  let ?w2 = "interact env (Popen [sys_executable env, ''main.py'', ''--listen'', host s,
      ''--port'', str_int (port s)] (comfy_dir s)
      [(''COMFYUI_PORT'', str_int (port s)), (''COMFYUI_HOST'', host s)]) 0 ?w1"
  have w2: "posted ?w2 = posted w" by simp
  show ?thesis
  proof (cases "popen_result env (step ?w1)")
    case (Inl e)
    with assms have "w' = ?w2" by (auto simp: launch_def Let_def)
    with w2 show ?thesis by simp
  next
    case (Inr p)
    obtain r3 w3 where c: "wait_for_ready env (s\<lparr>process := Some p\<rparr>) 30 ?w2 = (r3, w3)"
      by (cases "wait_for_ready env (s\<lparr>process := Some p\<rparr>) 30 ?w2")
    then have "posted w3 = posted ?w2"
      unfolding wait_for_ready_def by (rule posted_wait_loop)
    moreover from assms Inr c have "w' = w3 \<or> w' = emit (Log ''comfyui_started'') w3
        \<or> w' = emit (Log ''comfyui_failed_to_start'') w3"
      by (auto simp: launch_def Let_def split: sum.splits if_splits)
    ultimately show ?thesis using w2 by auto
  qed
qed

lemma posted_start_handler:
  "start_handler env s w = (r, s', w') \<Longrightarrow> posted w' = posted w"
  using posted_stop [of env s "emit (Log ''comfyui_start_error'') w"]
  by (auto simp: start_handler_def split: prod.splits option.splits)

lemma posted_start:
  assumes "start env s w = (r, s', w')"
  shows "posted w' = posted w"
proof -
  obtain b w1 where run: "is_running env s w = (b, w1)" by (cases "is_running env s w")
  have w1: "posted w1 = posted w" using run by (rule posted_is_running)
  show ?thesis
  proof (cases b)
    case True
    with run assms w1 show ?thesis by (auto simp: start_def)
  next
    case False
    obtain r2 s2 w2 where la: "launch env s w1 = (r2, s2, w2)" by (metis prod_cases3)
    have w2: "posted w2 = posted w" using posted_launch [OF la] w1 by simp
    obtain r3 s3 w3 where st: "stop env s2 w2 = (r3, s3, w3)" by (metis prod_cases3)
    have w3: "posted w3 = posted w" using posted_stop [OF st] w2 by simp
    obtain r4 s4 w4 where h: "start_handler env s3 w3 = (r4, s4, w4)" by (metis prod_cases3)
    have w4: "posted w4 = posted w" using posted_start_handler [OF h] w3 by simp
    show ?thesis
    proof (cases r2)
      case (Inl e)
      with run False la assms have "start_handler env s2 w2 = (r, s', w')"
        by (simp add: start_def)
      from posted_start_handler [OF this] w2 show ?thesis by simp
    next
      case (Inr x)
      with run False la st h assms have "w' = w2 \<or> w' = w3 \<or> w' = w4"
        by (cases x; cases r3) (auto simp: start_def)
      with w2 w3 w4 show ?thesis by auto
    qed
  qed
qed

lemma posted_get_history: "get_history env s pid w = (r, w') \<Longrightarrow> posted w' = posted w"
  by (auto simp: get_history_def Let_def split: option.splits sum.splits prod.splits)

lemma posted_await_result:
  "await_result env s tx pid waited w = (r, w') \<Longrightarrow> posted w' = posted w"
proof (induction env s tx pid waited w rule: await_result.induct)
  case (1 env s tx pid waited w)
  show ?case
  proof (cases "waited < max_wait")
    case False
    with "1.prems" show ?thesis by (simp add: await_result.simps)
  next
    case True
    obtain x w1 where g: "get_history env s pid (sleep env 2 w) = (x, w1)"
      by (cases "get_history env s pid (sleep env 2 w)")
    have w1: "posted w1 = posted w" using posted_get_history [OF g] by simp
    show ?thesis
    proof (cases x)
      case (Inl e)
      with True g "1.prems" have "w' = w1" by (simp add: await_result.simps)
      with w1 show ?thesis by simp
    next
      case (Inr history)
      show ?thesis
      proof (cases "first_image pid history")
        case None
        with True g Inr "1.prems" have "await_result env s tx pid (waited + 2) w1 = (r, w')"
          by (simp add: await_result.simps)
        from "1.IH" [OF True g [symmetric] Inr None this] w1 show ?thesis by simp
      next
        case (Some img)
        with True g Inr "1.prems" have "w' = emit (Log ''image_generated'') w1"
          by (simp add: await_result.simps)
        with w1 show ?thesis by simp
      qed
    qed
  qed
qed

lemma submit_client:
  assumes "submit env s args w h = (Inr pid, w1, h1)"
  shows "\<exists>c. client s = Some c"
  using assms
  by (cases "client s")
    (auto simp: submit_def queue_prompt_def split: prod.splits sum.splits)

lemma submit_template:
  "submit env s args w (template_with k @ rest) =
     (case queue_prompt env s (template_with (knobs_of args) @ rest @ [hd (template_with k)])
             (Ref (15 + length rest)) (emit (Log ''queueing_image_generation'') w) of
        (r, w1) \<Rightarrow> (r, w1, template_with (knobs_of args) @ rest @ [hd (template_with k)]))"
  by (simp add: submit_def build_workflow_template)

lemma queue_prompt_posted:
  assumes "to_json {} h p = Inr j" and "queue_prompt env s h p w = (r, w')"
  shows "posted w' = posted w @ (if client s = None then [] else [queue_prompt_payload j])"
  using assms
  by (auto simp: queue_prompt_def Let_def split: option.splits sum.splits prod.splits)

lemma submit_posted:
  assumes "submit env s args w (template_with k @ rest) = (r, w', h')"
  shows "posted w' = posted w
           @ (if client s = None then [] else [queue_prompt_payload (submitted_workflow args)])"
    and "h' = template_with (knobs_of args) @ rest @ [hd (template_with k)]"
proof -
  let ?h = "template_with (knobs_of args) @ rest @ [hd (template_with k)]"
  let ?w = "emit (Log ''queueing_image_generation'') w"
  obtain r1 w1 where q: "queue_prompt env s ?h (Ref (15 + length rest)) ?w = (r1, w1)"
    by (cases "queue_prompt env s ?h (Ref (15 + length rest)) ?w")
  from assms q have eq: "w' = w1" "h' = ?h" by (simp_all add: submit_template)
  from queue_prompt_posted [OF to_json_built q] eq(1)
  show "posted w' = posted w
           @ (if client s = None then [] else [queue_prompt_payload (submitted_workflow args)])"
    by simp
  from eq(2) show "h' = ?h" .
qed

lemma generate_guarded_effect:
  assumes "generate_guarded env s args w (template_with k @ rest) = (out, w', h')"
  shows "posted w' = posted w
           @ (if client s = None then [] else [queue_prompt_payload (submitted_workflow args)])"
    and "h' = template_with (knobs_of args) @ rest @ [hd (template_with k)]"
proof -
  let ?h = "template_with k @ rest"
  obtain r1 w1 h1 where su: "submit env s args w ?h = (r1, w1, h1)" by (metis prod_cases3)
  note s1 = submit_posted [OF su]
  show "h' = template_with (knobs_of args) @ rest @ [hd (template_with k)]"
    using assms su s1(2)
    by (auto simp: generate_guarded_def generate_try_def split: sum.splits prod.splits)
  show "posted w' = posted w
           @ (if client s = None then [] else [queue_prompt_payload (submitted_workflow args)])"
  proof (cases r1)
    case (Inl e)
    with assms su have "w' = emit (Log ''image_generation_error'') w1"
      by (auto simp: generate_guarded_def generate_try_def)
    with s1(1) show ?thesis by simp
  next
    case (Inr pid)
    obtain r2 w2 where aw: "await_result env s (prompt args) pid 0 w1 = (r2, w2)"
      by (cases "await_result env s (prompt args) pid 0 w1")
    from assms su Inr aw have "w' = w2 \<or> w' = emit (Log ''image_generation_error'') w2"
      by (auto simp: generate_guarded_def generate_try_def split: sum.splits)
    with posted_await_result [OF aw] s1(1) show ?thesis by auto
  qed
qed

lemma seed_of_payload:
  "json_at [''prompt'', ''3'', ''inputs'', ''seed''] (queue_prompt_payload (submitted_workflow args))
     = Some (JInt (- 1))"
  by (simp add: queue_prompt_payload_def submitted_workflow_def)

lemma submit_example:
  assumes "prompt_reply env 0 = Inr (200, Some ''job-42'')"
  shows "submit env service_ready args_cat world0 module_heap =
     (Inr (Some ''job-42''), world_queued \<lparr>now := max 0 (lag env 0)\<rparr>,
      template_with (knobs_of args_cat) @ [hd (template_with default_knobs)])"
proof -
  have j: "to_json {} (template_with (knobs_of args_cat) @ [] @ [hd (template_with default_knobs)])
      (Ref (15 + length ([] :: pyheap))) = Inr (submitted_workflow args_cat)"
    by (rule to_json_built)
  show ?thesis
    unfolding module_heap_template submit_template
    using assms j
    by (simp add: queue_prompt_def service_ready_def world0_def world_queued_def
        raise_for_status_def interact_def emit_def)
qed

section \<open>The claims\<close>

text \<open>
  C1. Idempotent start: when the supervised process is running, \<^verbatim>\<open>start()\<close> returns
  \<^verbatim>\<open>True\<close> at once. The service object, and with it the process reference, is
  unchanged, and the only events of the call are the liveness poll and the log line:
  no process is spawned.
\<close>

theorem start_idempotent:
  assumes "fst (is_running env s w)"
  shows "\<exists>p. process s = Some p \<and>
           start env s w =
             (Inr True, s, emit (Log ''comfy_already_running'') (interact env (Poll p) 0 w)) \<and>
           trace (snd (snd (start env s w))) = trace w @ [Poll p, Log ''comfy_already_running'']"
  using assms
  by (auto simp: start_def is_running_def emit_def interact_def split: option.splits)

theorem start_idempotent_witness:
  "fst (is_running env_base service_ready world0) \<and>
   start env_base service_ready world0 =
     (Inr True, service_ready,
      \<lparr>now = 0, step = 1, trace = [Poll 4242, Log ''comfy_already_running'']\<rparr>)"
proof -
  have h: "fst (is_running env_base service_ready world0)"
    by (simp add: run_defs example_defs)
  from start_idempotent [OF h] show ?thesis
    using h by (simp add: run_defs example_defs)
qed

text \<open>
  C2 is not what the code does. \<^verbatim>\<open>stop()\<close> guards the shutdown of the process with
  \<^verbatim>\<open>try\<close>, \<^verbatim>\<open>except Exception\<close> and \<^verbatim>\<open>finally\<close>, but closes the client before that, at
  line 149, with no guard. On the started service, when closing the client raises,
  \<^verbatim>\<open>stop()\<close> raises that exception after the one call: the client is still attached (now
  closed), the process reference is still there, the process has not been signalled
  and the readiness flag is still set.
\<close>

theorem stop_raises_when_close_fails:
  "reachable service_ready \<and>
   stop env_close_fails service_ready world0 =
     (Some (RuntimeError ''Event loop is closed''), service_closed,
      \<lparr>now = 0, step = 1, trace = [ClientClose ''http://127.0.0.1:8188'']\<rparr>) \<and>
   client service_closed \<noteq> None \<and> process service_closed = Some 4242 \<and>
   is_ready service_closed"
proof -
  have "stop env_close_fails service_ready world0 =
     (Some (RuntimeError ''Event loop is closed''), service_closed,
      \<lparr>now = 0, step = 1, trace = [ClientClose ''http://127.0.0.1:8188'']\<rparr>)"
    by (simp add: stop_def aclose_def interact_def env_close_fails_def env_base_def
        service_ready_def service_closed_def world0_def)
  with service_ready_reachable show ?thesis by (simp add: service_closed_def)
qed

text \<open>
  C3, as stated, fails. The claim takes a job to be complete as soon as any output slot
  of its record holds an artifact. In \<open>env_other_slot\<close> the record of the job reports an
  image under node 10 from the first poll on, which is completion in the claim's
  words; the code looks at node 9 only, polls sixty times and returns the timeout
  message.
\<close>

theorem job_completion_counterexample:
  "any_slot_has_artifact (Some ''job-42'') history_other_slot \<and>
   poll_reply env_other_slot world_queued 0 = Inr (200, history_other_slot) \<and>
   fst (generate_guarded env_other_slot service_ready args_cat world0 module_heap) = TimedOut \<and>
   trace (fst (snd (generate_guarded env_other_slot service_ready args_cat world0 module_heap))) =
     trace world_queued @ polls (Some ''job-42'') 60"
proof -
  have a: "any_slot_has_artifact (Some ''job-42'') history_other_slot"
    by (simp add: any_slot_has_artifact_def history_other_slot_def)
  have b: "poll_reply env_other_slot world_queued 0 = Inr (200, history_other_slot)"
    by (simp add: poll_reply_def env_other_slot_def env_base_def)
  have su: "submit env_other_slot service_ready args_cat world0 module_heap =
      (Inr (Some ''job-42''), world_queued,
       template_with (knobs_of args_cat) @ [hd (template_with default_knobs)])"
    using submit_example [of env_other_slot]
    by (simp add: env_other_slot_def env_base_def world_queued_def)
  have c: "client service_ready = Some (AsyncClient ''http://127.0.0.1:8188'' 30 False)"
    by (simp add: service_ready_def)
  have pend: "\<forall>i<60. no_image_yet (Some ''job-42'') (poll_reply env_other_slot world_queued i)"
    by (simp add: no_image_yet_def poll_reply_def env_other_slot_def env_base_def
        raise_for_status_def first_image_def history_other_slot_def)
  have "await_result env_other_slot service_ready (prompt args_cat) (Some ''job-42'') 0
      world_queued = (Inr TimedOut, (poll_once env_other_slot (Some ''job-42'') ^^ 60) world_queued)"
    using c pend by (rule await_timeout)
  with su have "generate_guarded env_other_slot service_ready args_cat world0 module_heap =
      (TimedOut, (poll_once env_other_slot (Some ''job-42'') ^^ 60) world_queued,
       template_with (knobs_of args_cat) @ [hd (template_with default_knobs)])"
    by (simp add: generate_guarded_def generate_try_def)
  with a b show ?thesis by simp
qed

text \<open>
  C3, amended. The job is complete the first time the history record of the submitted
  job reports at least one image under node 9, the primary output slot; the other
  slots are not looked at. If the first \<open>k\<close> polls succeed without such an image and
  poll \<open>k + 1\<close> shows one, \<^verbatim>\<open>generate_image\<close> returns the message built from the first
  image of node 9, and its events after the submission are exactly \<open>k + 1\<close> rounds of
  sleeping and polling and the log line: there is no further poll.
\<close>

theorem job_completion:
  assumes "submit env s args w h = (Inr (Some job), w1, h1)"
    and "k < 60"
    and "\<forall>i<k. no_image_yet (Some job) (poll_reply env w1 i)"
    and "poll_reply env w1 k = Inr (status, history)"
    and "raise_for_status status = None"
    and "map_of history job = Some result"
    and "outputs result = Some outs"
    and "map_of outs ''9'' = Some node"
    and "images node = Some (img # others)"
  shows "\<exists>w2. generate_guarded env s args w h =
           (Generated (prompt args) (image_url s img) (filename img), w2, h1) \<and>
         trace w2 = trace w1 @ polls (Some job) (Suc k) @ [Log ''image_generated'']"
proof -
  from submit_client [OF assms(1)] obtain c where c: "client s = Some c" by blast
  have f: "first_image (Some job) history = Some img"
    using assms(6-9) by (simp add: first_image_def)
  let ?w2 = "emit (Log ''image_generated'') ((poll_once env (Some job) ^^ Suc k) w1)"
  have "await_result env s (prompt args) (Some job) 0 w1 =
      (Inr (Generated (prompt args) (image_url s img) (filename img)), ?w2)"
    using c assms(2,3,4,5) f by (rule await_image)
  with assms(1) have "generate_guarded env s args w h =
      (Generated (prompt args) (image_url s img) (filename img), ?w2, h1)"
    by (simp add: generate_guarded_def generate_try_def)
  moreover have "trace ?w2 = trace w1 @ polls (Some job) (Suc k) @ [Log ''image_generated'']"
    by (simp add: polls_Suc)
  ultimately show ?thesis by blast
qed

theorem job_completion_witness:
  "fst (generate_guarded env_job service_ready args_cat world0 module_heap) =
     Generated ''a cat'' ''http://127.0.0.1:8188/view?filename=felix_gen_001.png&type=output''
       ''felix_gen_001.png'' \<and>
   trace (fst (snd (generate_guarded env_job service_ready args_cat world0 module_heap))) =
     trace world_queued @ polls (Some ''job-42'') 4 @ [Log ''image_generated'']"
proof -
  have su: "submit env_job service_ready args_cat world0 module_heap =
      (Inr (Some ''job-42''), world_queued,
       template_with (knobs_of args_cat) @ [hd (template_with default_knobs)])"
    using submit_example [of env_job] by (simp add: env_job_def env_base_def world_queued_def)
  have k: "(3::nat) < 60" by simp
  have pend: "\<forall>i<3. no_image_yet (Some ''job-42'') (poll_reply env_job world_queued i)"
    by (simp add: no_image_yet_def poll_reply_def env_job_def env_base_def world_queued_def
        raise_for_status_def first_image_def history_pending_def)
  have rep: "poll_reply env_job world_queued 3 = Inr (200, history_done)"
    by (simp add: poll_reply_def env_job_def env_base_def world_queued_def)
  have ok: "raise_for_status 200 = None" by (simp add: raise_for_status_def)
  have m1: "map_of history_done ''job-42'' = Some \<lparr>outputs = Some [(''9'', \<lparr>images = Some
         [\<lparr>filename = ''felix_gen_001.png'', subfolder = Some []\<rparr>]\<rparr>)]\<rparr>"
    by (simp add: history_done_def)
  have m2: "outputs \<lparr>outputs = Some [(''9'', \<lparr>images = Some
         [\<lparr>filename = ''felix_gen_001.png'', subfolder = Some []\<rparr>]\<rparr>)]\<rparr> = Some [(''9'', \<lparr>images = Some
         [\<lparr>filename = ''felix_gen_001.png'', subfolder = Some []\<rparr>]\<rparr>)]"
    by simp
  have m3: "map_of [(''9'', \<lparr>images = Some
         [\<lparr>filename = ''felix_gen_001.png'', subfolder = Some []\<rparr>]\<rparr>)] ''9'' = Some \<lparr>images = Some
         [\<lparr>filename = ''felix_gen_001.png'', subfolder = Some []\<rparr>]\<rparr>"
    by simp
  have m4: "images \<lparr>images = Some
         [\<lparr>filename = ''felix_gen_001.png'', subfolder = Some []\<rparr>]\<rparr> = Some (\<lparr>filename = ''felix_gen_001.png'', subfolder = Some []\<rparr> # [])"
    by simp
  from job_completion [OF su k pend rep ok m1 m2 m3 m4]
  obtain w2 where g: "generate_guarded env_job service_ready args_cat world0 module_heap =
      (Generated (prompt args_cat)
         (image_url service_ready \<lparr>filename = ''felix_gen_001.png'', subfolder = Some []\<rparr>)
         (filename \<lparr>filename = ''felix_gen_001.png'', subfolder = Some []\<rparr>), w2,
       template_with (knobs_of args_cat) @ [hd (template_with default_knobs)])"
    and t: "trace w2 = trace world_queued @ polls (Some ''job-42'') (Suc 3) @ [Log ''image_generated'']"
    by blast
  have "Suc 3 = 4" by simp
  with g t show ?thesis
    by (simp add: args_cat_def image_url_def base_url_def service_ready_def str_int_def
        str_nat.simps digit_char_def)
qed

text \<open>
  C4. After the submission, if all sixty polls (a sleep of 2 before each, 120 in all)
  succeed without an image, \<^verbatim>\<open>generate_image\<close> returns the timeout message, after
  exactly sixty rounds and no less than 120 time units. If the polls before poll
  \<open>k + 1\<close> succeed without an image and poll \<open>k + 1\<close> raises (a transport error or a
  status outside 200..299), it returns the failure message with that exception after
  exactly \<open>k + 1\<close> rounds: the failed request is not retried. The two messages differ.
\<close>

theorem poll_timeout_or_failure:
  assumes "submit env s args w h = (Inr pid, w1, h1)"
  shows "((\<forall>i<60. no_image_yet pid (poll_reply env w1 i)) \<longrightarrow>
            (\<exists>w2. generate_guarded env s args w h = (TimedOut, w2, h1) \<and>
                   trace w2 = trace w1 @ polls pid 60 \<and> now w1 + 120 \<le> now w2))
       \<and> (\<forall>k e. k < 60 \<and> (\<forall>i<k. no_image_yet pid (poll_reply env w1 i))
                 \<and> http_error (poll_reply env w1 k) = Some e \<longrightarrow>
            (\<exists>w2. generate_guarded env s args w h = (Failed e, w2, h1) \<and>
                   trace w2 = trace w1 @ polls pid (Suc k) @ [Log ''image_generation_error'']))
       \<and> (\<forall>e. TimedOut \<noteq> Failed e)"
proof (intro conjI impI allI)
  from submit_client [OF assms] obtain c where c: "client s = Some c" by blast
  {
    assume pend: "\<forall>i<60. no_image_yet pid (poll_reply env w1 i)"
    let ?w2 = "(poll_once env pid ^^ 60) w1"
    have "await_result env s (prompt args) pid 0 w1 = (Inr TimedOut, ?w2)"
      using c pend by (rule await_timeout)
    with assms have "generate_guarded env s args w h = (TimedOut, ?w2, h1)"
      by (simp add: generate_guarded_def generate_try_def)
    moreover have "trace ?w2 = trace w1 @ polls pid 60" by simp
    moreover have "now w1 + 120 \<le> now ?w2" using now_polled [of w1 60 env pid] by simp
    ultimately show "\<exists>w2. generate_guarded env s args w h = (TimedOut, w2, h1) \<and>
                   trace w2 = trace w1 @ polls pid 60 \<and> now w1 + 120 \<le> now w2"
      by blast
  }
  {
    fix k e
    assume h: "k < 60 \<and> (\<forall>i<k. no_image_yet pid (poll_reply env w1 i))
                 \<and> http_error (poll_reply env w1 k) = Some e"
    let ?w2 = "(poll_once env pid ^^ Suc k) w1"
    have "await_result env s (prompt args) pid 0 w1 = (Inl e, ?w2)"
      using c h by (intro await_error) auto
    with assms have "generate_guarded env s args w h =
        (Failed e, emit (Log ''image_generation_error'') ?w2, h1)"
      by (simp add: generate_guarded_def generate_try_def)
    moreover have "trace (emit (Log ''image_generation_error'') ?w2) =
        trace w1 @ polls pid (Suc k) @ [Log ''image_generation_error'']"
      by (simp add: polls_Suc)
    ultimately show "\<exists>w2. generate_guarded env s args w h = (Failed e, w2, h1) \<and>
                   trace w2 = trace w1 @ polls pid (Suc k) @ [Log ''image_generation_error'']"
      by blast
  }
  show "\<And>e. TimedOut \<noteq> Failed e" by simp
qed

theorem poll_timeout_or_failure_witness:
  "fst (generate_guarded env_base service_ready args_cat world0 module_heap) = TimedOut \<and>
   trace (fst (snd (generate_guarded env_base service_ready args_cat world0 module_heap))) =
     trace world_queued @ polls (Some ''job-42'') 60 \<and>
   fst (generate_guarded env_broken service_ready args_cat world0 module_heap) =
     Failed (HTTPStatusError 500) \<and>
   trace (fst (snd (generate_guarded env_broken service_ready args_cat world0 module_heap))) =
     trace world_queued @ polls (Some ''job-42'') 3 @ [Log ''image_generation_error'']"
proof -
  have s1: "submit env_base service_ready args_cat world0 module_heap =
      (Inr (Some ''job-42''), world_queued,
       template_with (knobs_of args_cat) @ [hd (template_with default_knobs)])"
    using submit_example [of env_base] by (simp add: env_base_def world_queued_def)
  have p1: "\<forall>i<60. no_image_yet (Some ''job-42'') (poll_reply env_base world_queued i)"
    by (simp add: no_image_yet_def poll_reply_def env_base_def raise_for_status_def
        first_image_def history_pending_def)
  from poll_timeout_or_failure [OF s1] p1
  obtain w2 where a: "generate_guarded env_base service_ready args_cat world0 module_heap =
        (TimedOut, w2, template_with (knobs_of args_cat) @ [hd (template_with default_knobs)])"
    and ta: "trace w2 = trace world_queued @ polls (Some ''job-42'') 60"
    by blast
  have s2: "submit env_broken service_ready args_cat world0 module_heap =
      (Inr (Some ''job-42''), world_queued,
       template_with (knobs_of args_cat) @ [hd (template_with default_knobs)])"
    using submit_example [of env_broken]
    by (simp add: env_broken_def env_base_def world_queued_def)
  have p2: "(2::nat) < 60 \<and>
      (\<forall>i<2. no_image_yet (Some ''job-42'') (poll_reply env_broken world_queued i)) \<and>
      http_error (poll_reply env_broken world_queued 2) = Some (HTTPStatusError 500)"
    by (simp add: no_image_yet_def poll_reply_def env_broken_def env_base_def
        raise_for_status_def first_image_def history_pending_def http_error_def world_queued_def)
  from poll_timeout_or_failure [OF s2] p2
  obtain w3 where b: "generate_guarded env_broken service_ready args_cat world0 module_heap =
        (Failed (HTTPStatusError 500), w3,
         template_with (knobs_of args_cat) @ [hd (template_with default_knobs)])"
    and tb: "trace w3 = trace world_queued @ polls (Some ''job-42'') (Suc 2)
        @ [Log ''image_generation_error'']"
    by blast
  have "Suc 2 = 3" by simp
  with a ta b tb show ?thesis by simp
qed




text \<open>
  C6 is not what the code does. The \<^verbatim>\<open>except Exception\<close> branch of \<^verbatim>\<open>start()\<close> calls
  \<^verbatim>\<open>stop()\<close>, and an exception of that call leaves \<^verbatim>\<open>start()\<close>. On the started service
  whose process has exited, when no new process can be spawned and closing the client
  raises, \<^verbatim>\<open>start()\<close> raises the exception of \<^verbatim>\<open>aclose()\<close> instead of returning \<^verbatim>\<open>False\<close>,
  and nothing is cleaned up: the closed client, the reference to the dead process and
  the readiness flag stay.
\<close>

theorem start_propagates_when_close_fails:
  "reachable service_ready \<and>
   is_running env_restart_fails service_ready world0 =
     (False, \<lparr>now = 0, step = 1, trace = [Poll 4242]\<rparr>) \<and>
   fst (launch env_restart_fails service_ready \<lparr>now = 0, step = 1, trace = [Poll 4242]\<rparr>)
     = Inl OSError \<and>
   start env_restart_fails service_ready world0 =
     (Inl (RuntimeError ''Event loop is closed''), service_closed,
      \<lparr>now = 0, step = 3,
       trace = [Poll 4242, Log ''starting_comfyui'',
         Popen [''python3'', ''main.py'', ''--listen'', ''127.0.0.1'', ''--port'', ''8188'']
           ''/felix/comfy'' [(''COMFYUI_PORT'', ''8188''), (''COMFYUI_HOST'', ''127.0.0.1'')],
         Log ''comfyui_start_error'', ClientClose ''http://127.0.0.1:8188'']\<rparr>) \<and>
   client service_closed \<noteq> None \<and> process service_closed = Some 4242 \<and>
   is_ready service_closed"
proof -
  have a: "is_running env_restart_fails service_ready world0 =
      (False, \<lparr>now = 0, step = 1, trace = [Poll 4242]\<rparr>)"
    by (simp add: run_defs example_defs env_restart_fails_def)
  have b: "fst (launch env_restart_fails service_ready \<lparr>now = 0, step = 1, trace = [Poll 4242]\<rparr>)
      = Inl OSError"
    by (simp add: run_defs example_defs env_restart_fails_def)
  have c: "start env_restart_fails service_ready world0 =
     (Inl (RuntimeError ''Event loop is closed''), service_closed,
      \<lparr>now = 0, step = 3,
       trace = [Poll 4242, Log ''starting_comfyui'',
         Popen [''python3'', ''main.py'', ''--listen'', ''127.0.0.1'', ''--port'', ''8188'']
           ''/felix/comfy'' [(''COMFYUI_PORT'', ''8188''), (''COMFYUI_HOST'', ''127.0.0.1'')],
         Log ''comfyui_start_error'', ClientClose ''http://127.0.0.1:8188'']\<rparr>)"
    by (simp add: run_defs example_defs env_restart_fails_def service_closed_def)
  from service_ready_reachable a b c show ?thesis by (simp add: service_closed_def)
qed

text \<open>
  C7. In every state of a service object that construction, \<^verbatim>\<open>start()\<close> and \<^verbatim>\<open>stop()\<close>
  can produce, the client exists if and only if the readiness flag is set.
\<close>

theorem client_iff_ready:
  assumes "reachable s"
  shows "client s \<noteq> None \<longleftrightarrow> is_ready s"
  using reachable_consistent [OF assms] by (simp add: consistent_def)

theorem client_iff_ready_witness:
  "reachable service_ready \<and> client service_ready \<noteq> None \<and> is_ready service_ready \<and>
   reachable service_new \<and> client service_new = None \<and> \<not> is_ready service_new"
proof -
  have c: "client service_ready \<noteq> None" by (simp add: service_ready_def)
  from client_iff_ready [OF service_ready_reachable] c have r: "is_ready service_ready"
    by blast
  have d: "client service_new = None" by (simp add: service_new_def)
  from client_iff_ready [OF service_new_reachable] d have "\<not> is_ready service_new"
    by blast
  with c r d service_ready_reachable service_new_reachable show ?thesis by blast
qed

text \<open>
  C8, as stated, fails. \<^verbatim>\<open>queue_prompt\<close> takes the workflow and nothing else, so its
  caller cannot choose the client identifier: a caller that wants the identifier
  \<^verbatim>\<open>alice\<close> does not get the payload of the specification's \<^verbatim>\<open>submitJob\<close>.
\<close>

theorem caller_chosen_client_id_counterexample:
  "posted (snd (queue_prompt env_base service_ready [[(''a'', Val (JInt 1))]] (Ref 0) world0))
     = [submitJob_payload (JObj [(''a'', JInt 1)]) ''felix''] \<and>
   posted (snd (queue_prompt env_base service_ready [[(''a'', Val (JInt 1))]] (Ref 0) world0))
     \<noteq> [submitJob_payload (JObj [(''a'', JInt 1)]) ''alice'']"
  by (simp add: queue_prompt_def queue_prompt_payload_def service_ready_def env_base_def
      world0_def raise_for_status_def submitJob_payload_def posted_def interact_def emit_def)

text \<open>
  C8, amended. For every submission with an existing client, the payload posted to
  \<^verbatim>\<open>/prompt\<close> consists of the workflow and the fixed client identifier \<^verbatim>\<open>felix\<close>, and
  when the service accepts the request (a status in 200..299) \<^verbatim>\<open>queue_prompt\<close> returns the
  \<^verbatim>\<open>prompt_id\<close> of the reply.
\<close>

theorem queue_prompt_fixed_client_id:
  assumes "client s = Some c" and "to_json {} h p = Inr j"
  shows "\<exists>r w'. queue_prompt env s h p w = (r, w') \<and>
           posted w' = posted w @ [JObj [(''prompt'', j), (''client_id'', JStr ''felix'')]] \<and>
           (\<forall>status job. prompt_reply env (step w) = Inr (status, job)
                \<and> raise_for_status status = None \<longrightarrow> r = Inr job)"
  using assms
  by (auto simp: queue_prompt_def queue_prompt_payload_def Let_def
      split: sum.splits option.splits prod.splits)

theorem queue_prompt_fixed_client_id_witness:
  "client service_ready = Some (AsyncClient ''http://127.0.0.1:8188'' 30 False) \<and>
   to_json {} [[(''a'', Val (JInt 1))]] (Ref 0) = Inr (JObj [(''a'', JInt 1)]) \<and>
   queue_prompt env_base service_ready [[(''a'', Val (JInt 1))]] (Ref 0) world0 =
     (Inr (Some ''job-42''),
      \<lparr>now = 0, step = 1,
       trace = [Post ''/prompt''
                  (JObj [(''prompt'', JObj [(''a'', JInt 1)]), (''client_id'', JStr ''felix'')]),
                Log ''prompt_queued'']\<rparr>)"
proof -
  have c: "client service_ready = Some (AsyncClient ''http://127.0.0.1:8188'' 30 False)"
    by (simp add: service_ready_def)
  have j: "to_json {} [[(''a'', Val (JInt 1))]] (Ref 0) = Inr (JObj [(''a'', JInt 1)])"
    by simp
  have r: "prompt_reply env_base (step world0) = Inr (200, Some ''job-42'')
      \<and> raise_for_status 200 = None"
    by (simp add: env_base_def raise_for_status_def)
  from queue_prompt_fixed_client_id [OF c j, of env_base world0] r
  have "fst (queue_prompt env_base service_ready [[(''a'', Val (JInt 1))]] (Ref 0) world0) =
      Inr (Some ''job-42'')"
    by auto
  moreover have "snd (queue_prompt env_base service_ready [[(''a'', Val (JInt 1))]] (Ref 0) world0) =
      \<lparr>now = 0, step = 1,
       trace = [Post ''/prompt''
                  (JObj [(''prompt'', JObj [(''a'', JInt 1)]), (''client_id'', JStr ''felix'')]),
                Log ''prompt_queued'']\<rparr>"
    by (simp add: queue_prompt_def queue_prompt_payload_def service_ready_def env_base_def
        world0_def raise_for_status_def interact_def emit_def)
  ultimately show ?thesis using c j by (simp add: prod_eq_iff)
qed

text \<open>
  C9. Whatever the arguments, the service object, the outside world and the values
  that earlier calls left in the template, a call of \<^verbatim>\<open>generate_image\<close> posts nothing or
  exactly one payload, and the sampler seed of that payload is \<open>-1\<close>.
\<close>

theorem sentinel_seed:
  assumes "generate_image env svc args w (template_with k @ rest) = (r, svc', w', h')"
  shows "\<exists>ps. posted w' = posted w @ ps \<and>
           (ps = [] \<or> ps = [queue_prompt_payload (submitted_workflow args)]) \<and>
           (\<forall>payload\<in>set ps.
              json_at [''prompt'', ''3'', ''inputs'', ''seed''] payload = Some (JInt (- 1)))"
proof -
  let ?h = "template_with k @ rest"
  let ?p = "queue_prompt_payload (submitted_workflow args)"
  have "posted w' = posted w \<or> posted w' = posted w @ [?p]"
  proof (cases svc)
    case None
    with assms show ?thesis by (simp add: generate_image_def)
  next
    case (Some s)
    obtain b w1 where run: "is_running env s w = (b, w1)" by (cases "is_running env s w")
    have w1: "posted w1 = posted w" using run by (rule posted_is_running)
    show ?thesis
    proof (cases b)
      case True
      obtain out w2 h2 where g: "generate_guarded env s args w1 ?h = (out, w2, h2)"
        by (metis prod_cases3)
      with assms Some run True have "w' = w2" by (simp add: generate_image_def)
      with generate_guarded_effect(1) [OF g] w1 show ?thesis by (auto split: if_splits)
    next
      case False
      let ?w = "emit (Log ''starting_comfyui_for_generation'') w1"
      obtain r2 s2 w2 where st: "start env s ?w = (r2, s2, w2)" by (metis prod_cases3)
      have w2: "posted w2 = posted w" using posted_start [OF st] w1 by simp
      obtain out w3 h3 where g: "generate_guarded env s2 args w2 ?h = (out, w3, h3)"
        by (metis prod_cases3)
      from assms Some run False st g have "w' = w2 \<or> w' = w3"
        by (auto simp: generate_image_def split: sum.splits bool.splits)
      with generate_guarded_effect(1) [OF g] w2 show ?thesis by (auto split: if_splits)
    qed
  qed
  then show ?thesis using seed_of_payload [of args] by auto
qed

theorem sentinel_seed_witness:
  "posted (fst (snd (snd (generate_image env_slow (Some service_new) args_cat world0 module_heap))))
     = [queue_prompt_payload (submitted_workflow args_cat)] \<and>
   json_at [''prompt'', ''3'', ''inputs'', ''seed'']
     (queue_prompt_payload (submitted_workflow args_cat)) = Some (JInt (- 1))"
proof -
  obtain r svc' w' h' where
    g: "generate_image env_slow (Some service_new) args_cat world0 (template_with default_knobs @ [])
        = (r, svc', w', h')"
    by (metis prod_cases4)
  from sentinel_seed [OF g] obtain ps where
    ps: "posted w' = posted world0 @ ps"
      "ps = [] \<or> ps = [queue_prompt_payload (submitted_workflow args_cat)]"
      "\<forall>payload\<in>set ps. json_at [''prompt'', ''3'', ''inputs'', ''seed''] payload = Some (JInt (- 1))"
    by blast
  obtain w2 where started:
    "start env_slow service_new (emit (Log ''starting_comfyui_for_generation'') world0)
      = (Inr True, service_ready, w2)"
    by (simp add: run_defs example_defs)
  obtain out w3 h3 where gg: "generate_guarded env_slow service_ready args_cat w2
      (template_with default_knobs @ []) = (out, w3, h3)"
    by (metis prod_cases3)
  have "is_running env_slow service_new world0 = (False, world0)"
    by (simp add: is_running_def service_new_def)
  with started gg g have "w' = w3"
    by (simp add: generate_image_def)
  moreover have "posted w2 = posted (emit (Log ''starting_comfyui_for_generation'') world0)"
    using started by (rule posted_start)
  ultimately have pw: "posted w' = [queue_prompt_payload (submitted_workflow args_cat)]"
    using generate_guarded_effect(1) [OF gg]
    by (simp add: service_ready_def posted_def world0_def emit_def)
  have p0: "posted world0 = []" by (simp add: posted_def world0_def)
  from pw p0 ps g show ?thesis by (auto simp: module_heap_template)
qed

text \<open>
  C10. \<^verbatim>\<open>generate_image\<close> copies only the outermost dictionary of the template, so its
  assignments go to the \<^verbatim>\<open>inputs\<close> dictionaries that the template itself refers to.
  After every call that gets as far as building the workflow (the service exists and
  runs or starts), the template read through \<^verbatim>\<open>DEFAULT_TEXT2IMG_WORKFLOW\<close> holds the
  arguments of that call and the seed \<open>-1\<close> in place of the earlier values, and the store
  has grown by the copy alone.
\<close>

theorem template_shared_with_copy:
  assumes "generate_image env (Some s) args w (template_with k @ rest) = (Inr out, svc', w', h')"
    and "out \<noteq> StartFailed"
  shows "h' = template_with (knobs_of args) @ rest @ [hd (template_with k)] \<and>
     get_input h' (Ref DEFAULT_TEXT2IMG_WORKFLOW) ''6'' ''text'' = Inr (Val (JStr (prompt args))) \<and>
     get_input h' (Ref DEFAULT_TEXT2IMG_WORKFLOW) ''7'' ''text''
       = Inr (Val (JStr (negative_prompt args))) \<and>
     get_input h' (Ref DEFAULT_TEXT2IMG_WORKFLOW) ''5'' ''width'' = Inr (Val (JInt (width args))) \<and>
     get_input h' (Ref DEFAULT_TEXT2IMG_WORKFLOW) ''5'' ''height'' = Inr (Val (JInt (height args))) \<and>
     get_input h' (Ref DEFAULT_TEXT2IMG_WORKFLOW) ''3'' ''steps'' = Inr (Val (JInt (steps args))) \<and>
     get_input h' (Ref DEFAULT_TEXT2IMG_WORKFLOW) ''3'' ''cfg''
       = Inr (Val (JFloat (cfg_scale args))) \<and>
     get_input h' (Ref DEFAULT_TEXT2IMG_WORKFLOW) ''3'' ''seed'' = Inr (Val (JInt (- 1)))"
proof -
  let ?h = "template_with k @ rest"
  obtain b w1 where run: "is_running env s w = (b, w1)" by (cases "is_running env s w")
  have h: "h' = template_with (knobs_of args) @ rest @ [hd (template_with k)]"
  proof (cases b)
    case True
    obtain o2 w2 h2 where g: "generate_guarded env s args w1 ?h = (o2, w2, h2)"
      by (metis prod_cases3)
    with assms(1) run True have "h' = h2" by (simp add: generate_image_def)
    with generate_guarded_effect(2) [OF g] show ?thesis by simp
  next
    case False
    let ?w = "emit (Log ''starting_comfyui_for_generation'') w1"
    obtain r2 s2 w2 where st: "start env s ?w = (r2, s2, w2)" by (metis prod_cases3)
    obtain o3 w3 h3 where g: "generate_guarded env s2 args w2 ?h = (o3, w3, h3)"
      by (metis prod_cases3)
    from assms run False st g have "h' = h3"
      by (auto simp: generate_image_def split: sum.splits bool.splits)
    with generate_guarded_effect(2) [OF g] show ?thesis by simp
  qed
  show ?thesis
    unfolding h using template_reads [of args "rest @ [hd (template_with k)]"] by simp
qed

theorem template_shared_with_copy_witness:
  "fst (generate_image env_job (Some service_ready) args_cat world0 module_heap) =
     Inr (Generated ''a cat'' ''http://127.0.0.1:8188/view?filename=felix_gen_001.png&type=output''
       ''felix_gen_001.png'') \<and>
   get_input module_heap (Ref DEFAULT_TEXT2IMG_WORKFLOW) ''6'' ''text'' = Inr (Val (JStr [])) \<and>
   get_input module_heap (Ref DEFAULT_TEXT2IMG_WORKFLOW) ''5'' ''width'' = Inr (Val (JInt 512)) \<and>
   get_input module_heap (Ref DEFAULT_TEXT2IMG_WORKFLOW) ''3'' ''seed'' = Inr (Val (JInt 0)) \<and>
   get_input (snd (snd (snd (generate_image env_job (Some service_ready) args_cat world0 module_heap))))
     (Ref DEFAULT_TEXT2IMG_WORKFLOW) ''6'' ''text'' = Inr (Val (JStr ''a cat'')) \<and>
   get_input (snd (snd (snd (generate_image env_job (Some service_ready) args_cat world0 module_heap))))
     (Ref DEFAULT_TEXT2IMG_WORKFLOW) ''5'' ''width'' = Inr (Val (JInt 768)) \<and>
   get_input (snd (snd (snd (generate_image env_job (Some service_ready) args_cat world0 module_heap))))
     (Ref DEFAULT_TEXT2IMG_WORKFLOW) ''3'' ''seed'' = Inr (Val (JInt (- 1)))"
proof -
  let ?out = "Generated ''a cat''
      ''http://127.0.0.1:8188/view?filename=felix_gen_001.png&type=output'' ''felix_gen_001.png''"
  have f: "fst (generate_image env_job (Some service_ready) args_cat world0 module_heap) = Inr ?out"
    by (simp add: generate_image_def generate_guarded_def generate_try_def submit_def
        build_workflow_def dict_copy_def set_input_def getitem_def setitem_def queue_prompt_def
        queue_prompt_payload_def template_with_def module_heap_def default_knobs_def link_def
        DEFAULT_TEXT2IMG_WORKFLOW_def await_result.simps get_history_def history_url_def
        raise_for_status_def first_image_def image_url_def max_wait_def run_defs example_defs
        env_job_def history_done_def)
  then obtain svc' w' h' where
    g: "generate_image env_job (Some service_ready) args_cat world0 (template_with default_knobs @ [])
        = (Inr ?out, svc', w', h')"
    by (metis module_heap_template prod.collapse)
  have ne: "?out \<noteq> StartFailed" by simp
  have before: "get_input module_heap (Ref DEFAULT_TEXT2IMG_WORKFLOW) ''6'' ''text'' = Inr (Val (JStr []))
      \<and> get_input module_heap (Ref DEFAULT_TEXT2IMG_WORKFLOW) ''5'' ''width'' = Inr (Val (JInt 512))
      \<and> get_input module_heap (Ref DEFAULT_TEXT2IMG_WORKFLOW) ''3'' ''seed'' = Inr (Val (JInt 0))"
    by (simp add: get_input_def getitem_def module_heap_def template_with_def default_knobs_def
        DEFAULT_TEXT2IMG_WORKFLOW_def)
  have e: "snd (snd (snd (generate_image env_job (Some service_ready) args_cat world0 module_heap)))
      = h'"
    using g by (simp add: module_heap_template)
  from template_shared_with_copy [OF g ne]
  have after: "get_input h' (Ref DEFAULT_TEXT2IMG_WORKFLOW) ''6'' ''text''
        = Inr (Val (JStr (prompt args_cat)))
      \<and> get_input h' (Ref DEFAULT_TEXT2IMG_WORKFLOW) ''5'' ''width''
        = Inr (Val (JInt (width args_cat)))
      \<and> get_input h' (Ref DEFAULT_TEXT2IMG_WORKFLOW) ''3'' ''seed'' = Inr (Val (JInt (- 1)))"
    by blast
  show ?thesis
    unfolding e using f before after by (simp add: args_cat_def)
qed

end
